theory Spec2Isabelle
  imports Main "HOL-Library.Multiset"
begin

section \<open>Strings and numbers of the platform\<close>

text \<open>
  Strings are lists of 8-bit characters. The model is exact for ASCII text; a character
  outside ASCII stands for the bytes of its UTF-8 encoding and is passed through
  unchanged (the Unicode white space of regular expressions and case mappings beyond A-Z
  are outside the model; \<^verbatim>\<open>parseInt\<close> skips Unicode white space as the source does).
  Numbers that the code only compares, pads and prints are integers (the double-precision
  numbers of the source are exact on the integers below \<open>2 ^ 53\<close>); a number read
  from text is rounded to a double as in the source.
\<close>

definition startsWith :: "string \<Rightarrow> string \<Rightarrow> bool" where
  "startsWith s p = (take (length p) s = p)"

definition includes_chr :: "string \<Rightarrow> char \<Rightarrow> bool" where
  "includes_chr s c = (c \<in> set s)"

text \<open>\<^verbatim>\<open>s.split(c)\<close> for a one-character separator: the empty string gives one empty part.\<close>

fun split_chr :: "char \<Rightarrow> string \<Rightarrow> string list" where
  "split_chr c [] = [[]]"
| "split_chr c (x # xs) =
     (if x = c then [] # split_chr c xs
      else (case split_chr c xs of
              [] \<Rightarrow> [[x]]
            | p # ps \<Rightarrow> (x # p) # ps))"

definition isDigit :: "char \<Rightarrow> bool" where
  "isDigit c = (c \<in> set ''0123456789'')"

text \<open>The white space of the regular expressions, \<^verbatim>\<open>\s\<close>, within ASCII.\<close>

definition isWhiteSpace :: "char \<Rightarrow> bool" where
  "isWhiteSpace c = (c \<in> {CHR 0x09, CHR 0x0A, CHR 0x0B, CHR 0x0C, CHR 0x0D, CHR 0x20})"

text \<open>
  The white space and line terminators that \<^verbatim>\<open>parseInt\<close> skips, each as the bytes of
  its UTF-8 encoding: TAB, LF, VT, FF, CR, space, U+00A0, U+1680, U+2000 to U+200A,
  U+2028, U+2029, U+202F, U+205F, U+3000 and U+FEFF.
\<close>

definition whiteSpaceChars :: "string list" where
  "whiteSpaceChars =
     [[CHR 0x09], [CHR 0x0A], [CHR 0x0B], [CHR 0x0C], [CHR 0x0D], [CHR 0x20],
      [CHR 0xC2, CHR 0xA0], [CHR 0xE1, CHR 0x9A, CHR 0x80],
      [CHR 0xE2, CHR 0x80, CHR 0x80], [CHR 0xE2, CHR 0x80, CHR 0x81],
      [CHR 0xE2, CHR 0x80, CHR 0x82], [CHR 0xE2, CHR 0x80, CHR 0x83],
      [CHR 0xE2, CHR 0x80, CHR 0x84], [CHR 0xE2, CHR 0x80, CHR 0x85],
      [CHR 0xE2, CHR 0x80, CHR 0x86], [CHR 0xE2, CHR 0x80, CHR 0x87],
      [CHR 0xE2, CHR 0x80, CHR 0x88], [CHR 0xE2, CHR 0x80, CHR 0x89],
      [CHR 0xE2, CHR 0x80, CHR 0x8A], [CHR 0xE2, CHR 0x80, CHR 0xA8],
      [CHR 0xE2, CHR 0x80, CHR 0xA9], [CHR 0xE2, CHR 0x80, CHR 0xAF],
      [CHR 0xE2, CHR 0x81, CHR 0x9F], [CHR 0xE3, CHR 0x80, CHR 0x80],
      [CHR 0xEF, CHR 0xBB, CHR 0xBF]]"

text \<open>
  The text without its leading white space; \<open>w\<close> is the white-space character found
  at the head, of which \<open>c\<close> is the first byte.
\<close>

fun trimStart :: "string \<Rightarrow> string" where
  "trimStart [] = []"
| "trimStart (c # cs) =
     (case find (startsWith (c # cs)) whiteSpaceChars of
        None \<Rightarrow> c # cs
      | Some w \<Rightarrow> trimStart (drop (length w - 1) cs))"

definition digitValue :: "char \<Rightarrow> nat" where
  "digitValue c = of_char c - 48"

definition digitsValue :: "string \<Rightarrow> nat" where
  "digitsValue ds = foldl (\<lambda>a c. 10 * a + digitValue c) 0 ds"

text \<open>
  The double-precision number nearest to a natural number, a tie to the even
  significand of 53 bits: the identity below \<open>2 ^ 53\<close>. (From \<open>2 ^ 1024\<close> on the source
  has \<^verbatim>\<open>Infinity\<close>, which is outside the model.)
\<close>

fun bitLength :: "nat \<Rightarrow> nat" where
  "bitLength n = (if n = 0 then 0 else Suc (bitLength (n div 2)))"

declare bitLength.simps [simp del]

definition roundToDouble :: "nat \<Rightarrow> nat" where
  "roundToDouble n =
     (let e = bitLength n - 53;
          q = n div 2 ^ e;
          r = n mod 2 ^ e
      in if 2 * r < 2 ^ e \<or> (2 * r = 2 ^ e \<and> even q) then q * 2 ^ e else (q + 1) * 2 ^ e)"

text \<open>
  \<^verbatim>\<open>parseInt(s, 10)\<close>: skip leading white space, read one optional sign, then the longest
  run of decimal digits; \<open>None\<close> is NaN (no digit there). What follows the digits is
  ignored. The number is the double nearest to the value of the digits (for more than 20
  significant digits the language lets the platform round the digits first, which is
  outside the model).
\<close>

definition parseInt :: "string \<Rightarrow> int option" where
  "parseInt s =
     (let t = trimStart s;
          neg = (t \<noteq> [] \<and> hd t = CHR ''-'');
          u = (if t \<noteq> [] \<and> (hd t = CHR ''-'' \<or> hd t = CHR ''+'') then tl t else t);
          ds = takeWhile isDigit u;
          n = int (roundToDouble (digitsValue ds))
      in if ds = [] then None else Some (if neg then - n else n))"

text \<open>\<^verbatim>\<open>String(n)\<close> for an integer.\<close>

fun string_of_nat :: "nat \<Rightarrow> string" where
  "string_of_nat n =
     (if n < 10 then [''0123456789'' ! n]
      else string_of_nat (n div 10) @ [''0123456789'' ! (n mod 10)])"

declare string_of_nat.simps [simp del]

definition string_of_int :: "int \<Rightarrow> string" where
  "string_of_int i =
     (if i < 0 then CHR ''-'' # string_of_nat (nat (- i)) else string_of_nat (nat i))"

text \<open>\<^verbatim>\<open>s.padStart(2, '0')\<close>.\<close>

definition padStart2 :: "string \<Rightarrow> string" where
  "padStart2 s = replicate (2 - length s) CHR ''0'' @ s"

text \<open>\<^verbatim>\<open>s.toLowerCase()\<close> on ASCII.\<close>

definition toLowerChar :: "char \<Rightarrow> char" where
  "toLowerChar c =
     (case map_of (zip ''ABCDEFGHIJKLMNOPQRSTUVWXYZ'' ''abcdefghijklmnopqrstuvwxyz'') c of
        None \<Rightarrow> c
      | Some l \<Rightarrow> l)"

definition toLowerCase :: "string \<Rightarrow> string" where
  "toLowerCase s = map toLowerChar s"

text \<open>\<^verbatim>\<open>s.substring(i)\<close>: a negative start counts as 0.\<close>

definition substring_from :: "string \<Rightarrow> int \<Rightarrow> string" where
  "substring_from s i = drop (nat i) s"

section \<open>Identifier parser\<close>

datatype SearchType = Movie | Series

record ParsedId =
  imdbId :: string
  season :: "int option"
  episode :: "int option"
  searchType :: SearchType

text \<open>\<^verbatim>\<open>parseStremioId\<close> of \<^verbatim>\<open>stremio_helpers.ts\<close>; \<open>None\<close> is the \<^verbatim>\<open>null\<close> it returns.\<close>

definition parseStremioId :: "string \<Rightarrow> string \<Rightarrow> ParsedId option" where
  "parseStremioId type_arg id_arg =
     (case (if type_arg = ''movie'' then Some Movie
            else if type_arg = ''series'' then Some Series else None) of
        None \<Rightarrow> None
      | Some st \<Rightarrow>
          if st = Series \<and> includes_chr id_arg CHR '':'' then
            (let parts = split_chr CHR '':'' id_arg in
             if length parts = 3 \<and> startsWith (parts ! 0) ''tt'' then
               (case parseInt (parts ! 1) of
                  None \<Rightarrow> None
                | Some s \<Rightarrow>
                    (case parseInt (parts ! 2) of
                       None \<Rightarrow> None
                     | Some e \<Rightarrow>
                         Some \<lparr>imdbId = parts ! 0, season = Some s, episode = Some e,
                               searchType = st\<rparr>))
             else None)
          else if \<not> startsWith id_arg ''tt'' then None
          else Some \<lparr>imdbId = id_arg, season = None, episode = None, searchType = st\<rparr>)"


section \<open>Magnet parser\<close>

record ParsedMagnetUri =
  infoHash :: string
  sources :: "string list"

text \<open>\<^verbatim>\<open>s.indexOf(c)\<close>, \<open>- 1\<close> when \<open>c\<close> does not occur.\<close>

definition indexOf :: "string \<Rightarrow> char \<Rightarrow> int" where
  "indexOf s c = (if c \<in> set s then int (length (takeWhile (\<lambda>x. x \<noteq> c) s)) else - 1)"

definition isHexDigit :: "char \<Rightarrow> bool" where
  "isHexDigit c = (c \<in> set ''0123456789abcdefABCDEF'')"

definition hexValue :: "char \<Rightarrow> nat" where
  "hexValue c =
     (case map_of (zip ''0123456789abcdefABCDEF''
                       [0, 1, 2, 3, 4, 5, 6, 7, 8, 9, 10, 11, 12, 13, 14, 15,
                        10, 11, 12, 13, 14, 15]) c of
        None \<Rightarrow> 0
      | Some v \<Rightarrow> v)"

text \<open>
  \<^verbatim>\<open>new URLSearchParams(init)\<close> and its \<^verbatim>\<open>get\<close> and \<^verbatim>\<open>getAll\<close>, as the URL
  standard defines them: one leading \<open>?\<close> is removed, the rest is split at \<open>&\<close>, empty
  pieces are skipped, each piece is split at its first \<open>=\<close>, \<open>+\<close> becomes a space, and
  \<^verbatim>\<open>%XX\<close> with two hexadecimal digits becomes the byte \<open>XX\<close>. The decoded bytes are
  kept as they are (the replacement of ill-formed UTF-8 is outside the model).
\<close>

fun percentDecode :: "string \<Rightarrow> string" where
  "percentDecode (c # h1 # h2 # rest) =
     (if c = CHR ''%'' \<and> isHexDigit h1 \<and> isHexDigit h2
      then char_of (16 * hexValue h1 + hexValue h2) # percentDecode rest
      else c # percentDecode (h1 # h2 # rest))"
| "percentDecode (c # cs) = c # percentDecode cs"
| "percentDecode [] = []"

definition plusToSpace :: "string \<Rightarrow> string" where
  "plusToSpace s = map (\<lambda>c. if c = CHR ''+'' then CHR '' '' else c) s"

definition parsePair :: "string \<Rightarrow> string \<times> string" where
  "parsePair piece =
     (percentDecode (plusToSpace (takeWhile (\<lambda>c. c \<noteq> CHR ''='') piece)),
      percentDecode (plusToSpace (drop 1 (dropWhile (\<lambda>c. c \<noteq> CHR ''='') piece))))"

definition URLSearchParams :: "string \<Rightarrow> (string \<times> string) list" where
  "URLSearchParams init =
     (let body = (if startsWith init ''?'' then drop 1 init else init)
      in map parsePair (filter (\<lambda>piece. piece \<noteq> []) (split_chr CHR ''&'' body)))"

definition params_get :: "(string \<times> string) list \<Rightarrow> string \<Rightarrow> string option" where
  "params_get params k = map_of params k"

definition params_getAll :: "(string \<times> string) list \<Rightarrow> string \<Rightarrow> string list" where
  "params_getAll params k = map snd (filter (\<lambda>kv. fst kv = k) params)"

text \<open>
  \<^verbatim>\<open>s.match(/urn:btih:([a-fA-F0-9]{40})/)?.[1]\<close>: the 40 hexadecimal digits of the
  leftmost place where \<^verbatim>\<open>urn:btih:\<close> is followed by 40 of them.
\<close>

definition btihHere :: "string \<Rightarrow> bool" where
  "btihHere s =
     (startsWith s ''urn:btih:'' \<and> 40 \<le> length (drop 9 s) \<and>
      list_all isHexDigit (take 40 (drop 9 s)))"

fun match_btih :: "string \<Rightarrow> string option" where
  "match_btih [] = None"
| "match_btih (c # cs) =
     (if btihHere (c # cs) then Some (take 40 (drop 9 (c # cs))) else match_btih cs)"

text \<open>
  \<^verbatim>\<open>parseMagnetUri\<close>; the argument \<open>None\<close> is \<^verbatim>\<open>undefined\<close>, the result \<open>None\<close> is
  \<^verbatim>\<open>null\<close>. Nothing in the \<^verbatim>\<open>try\<close> block throws, so the \<^verbatim>\<open>catch\<close> branch has no
  counterpart.
\<close>

definition parseMagnetUri :: "string option \<Rightarrow> ParsedMagnetUri option" where
  "parseMagnetUri magnetUri_opt =
     (case magnetUri_opt of
        None \<Rightarrow> None
      | Some magnetUri \<Rightarrow>
          if magnetUri = [] \<or> \<not> startsWith magnetUri ''magnet:?'' then None
          else
            (let params = URLSearchParams
                            (substring_from magnetUri (indexOf magnetUri CHR ''?'' + 1));
                 sources_all = params_getAll params ''tr''
             in case (case params_get params ''xt'' of
                        None \<Rightarrow> None
                      | Some xt \<Rightarrow> match_btih xt) of
                  None \<Rightarrow> None
                | Some hash \<Rightarrow>
                    if hash = [] then None
                    else Some \<lparr>infoHash = toLowerCase hash,
                               sources = filter (\<lambda>t. t \<noteq> []) sources_all\<rparr>))"

text \<open>
  A magnet URI built from an info hash and trackers. \<open>enc\<close> is the way a tracker is
  written into the query string: with \<^verbatim>\<open>encodeURIComponent\<close> (every byte other than an
  ASCII letter, a digit or one of \<^verbatim>\<open>-_.!~*'()\<close> becomes \<^verbatim>\<open>%XX\<close>), or as it is, which
  a tracker without \<open>&\<close>, \<open>+\<close> and \<open>%\<close> allows (\<open>plainTracker\<close>).
\<close>

definition isUnreserved :: "char \<Rightarrow> bool" where
  "isUnreserved c =
     (c \<in> set ''abcdefghijklmnopqrstuvwxyzABCDEFGHIJKLMNOPQRSTUVWXYZ0123456789-_.!~*()''
      \<or> c = CHR 0x27)"

definition hexDigitOf :: "nat \<Rightarrow> char" where
  "hexDigitOf n = ''0123456789ABCDEF'' ! n"

definition encodeChar :: "char \<Rightarrow> string" where
  "encodeChar c =
     (if isUnreserved c then [c]
      else [CHR ''%'', hexDigitOf (of_char c div 16), hexDigitOf (of_char c mod 16)])"

definition encodeURIComponent :: "string \<Rightarrow> string" where
  "encodeURIComponent s = concat (map encodeChar s)"

definition plainTracker :: "string \<Rightarrow> bool" where
  "plainTracker t = (CHR ''&'' \<notin> set t \<and> CHR ''+'' \<notin> set t \<and> CHR ''%'' \<notin> set t)"

definition buildMagnetUri :: "(string \<Rightarrow> string) \<Rightarrow> string \<Rightarrow> string list \<Rightarrow> string" where
  "buildMagnetUri enc h ts =
     ''magnet:?xt=urn:btih:'' @ h @ concat (map (\<lambda>t. ''&tr='' @ enc t) ts)"

section \<open>Best-file selector\<close>

record TorrentFile =
  path :: string
  size_f :: int
  index :: int

text \<open>\<^verbatim>\<open>s.lastIndexOf(c)\<close>, \<open>- 1\<close> when \<open>c\<close> does not occur.\<close>

definition lastIndexOf :: "string \<Rightarrow> char \<Rightarrow> int" where
  "lastIndexOf s c =
     (case filter (\<lambda>i. s ! i = c) (rev [0..<length s]) of
        [] \<Rightarrow> - 1
      | i # _ \<Rightarrow> int i)"

definition videoExtensions :: "string list" where
  "videoExtensions = [''.mkv'', ''.mp4'', ''.avi'', ''.mov'', ''.wmv'', ''.flv'']"

definition hasVideoExtension :: "TorrentFile \<Rightarrow> bool" where
  "hasVideoExtension file =
     (toLowerCase (substring_from (path file) (lastIndexOf (path file) CHR ''.''))
        \<in> set videoExtensions)"

text \<open>
  The regular expressions of the selector all have the shape
  \<^verbatim>\<open>(?:[._\-\s]|\b)LIT(?:[._\-\s]|\b)\<close> with flag \<^verbatim>\<open>i\<close>, where \<^verbatim>\<open>LIT\<close> is made of
  letters, digits and possibly a minus sign. \<open>regexTest s lit\<close> is
  \<^verbatim>\<open>regex.test(s)\<close> for that expression: somewhere in \<open>s\<close> the literal occurs, letters
  compared without case, with a separator character or a word boundary on each side.
\<close>

definition isWordChar :: "char \<Rightarrow> bool" where
  "isWordChar c =
     (c \<in> set ''abcdefghijklmnopqrstuvwxyzABCDEFGHIJKLMNOPQRSTUVWXYZ0123456789_'')"

definition isSepChar :: "char \<Rightarrow> bool" where
  "isSepChar c = (c = CHR ''.'' \<or> c = CHR ''_'' \<or> c = CHR ''-'' \<or> isWhiteSpace c)"

definition wordBoundary :: "string \<Rightarrow> nat \<Rightarrow> bool" where
  "wordBoundary s p =
     ((0 < p \<and> isWordChar (s ! (p - 1))) \<noteq> (p < length s \<and> isWordChar (s ! p)))"

definition edgeBefore :: "string \<Rightarrow> nat \<Rightarrow> bool" where
  "edgeBefore s p = ((0 < p \<and> isSepChar (s ! (p - 1))) \<or> wordBoundary s p)"

definition edgeAfter :: "string \<Rightarrow> nat \<Rightarrow> bool" where
  "edgeAfter s q = ((q < length s \<and> isSepChar (s ! q)) \<or> wordBoundary s q)"

definition literalAt :: "string \<Rightarrow> nat \<Rightarrow> string \<Rightarrow> bool" where
  "literalAt s p lit =
     (p + length lit \<le> length s \<and>
      toLowerCase (take (length lit) (drop p s)) = toLowerCase lit)"

definition regexTest :: "string \<Rightarrow> string \<Rightarrow> bool" where
  "regexTest s lit =
     list_ex (\<lambda>p. edgeBefore s p \<and> literalAt s p lit \<and> edgeAfter s (p + length lit))
       [0..<Suc (length s)]"

text \<open>The six literals, in the order of the source.\<close>

definition regexPatterns :: "int \<Rightarrow> int \<Rightarrow> string list" where
  "regexPatterns s e =
     (let seasonPad = padStart2 (string_of_int s);
          episodePad = padStart2 (string_of_int e);
          seasonNoPad = string_of_int s;
          episodeNoPad = string_of_int e
      in [''S'' @ seasonPad @ ''E'' @ episodePad,
          ''S'' @ seasonNoPad @ ''E'' @ episodePad,
          ''S'' @ seasonPad @ ''E'' @ episodeNoPad,
          ''S'' @ seasonNoPad @ ''E'' @ episodeNoPad,
          seasonNoPad @ ''x'' @ episodePad,
          seasonNoPad @ ''x'' @ episodeNoPad])"

text \<open>\<^verbatim>\<open>regexPatterns && regexPatterns.some(regex => regex.test(file.path))\<close>.\<close>

definition matchesEpisode :: "string list option \<Rightarrow> TorrentFile \<Rightarrow> bool" where
  "matchesEpisode pats file =
     (case pats of None \<Rightarrow> False | Some ps \<Rightarrow> list_ex (regexTest (path file)) ps)"

text \<open>One assignment \<^verbatim>\<open>if (!best || file.size > best.size) best = file\<close>.\<close>

definition keepLarger :: "TorrentFile option \<Rightarrow> TorrentFile \<Rightarrow> TorrentFile option" where
  "keepLarger best file =
     (case best of
        None \<Rightarrow> Some file
      | Some b \<Rightarrow> if size_f b < size_f file then Some file else Some b)"

text \<open>
  The body of the loop over the files; the state is the pair
  (\<^verbatim>\<open>largestVideoFile\<close>, \<^verbatim>\<open>specificEpisodeFile\<close>).
\<close>

definition scanFile ::
  "string list option \<Rightarrow> TorrentFile option \<times> TorrentFile option \<Rightarrow> TorrentFile \<Rightarrow>
   TorrentFile option \<times> TorrentFile option" where
  "scanFile pats st file =
     (if hasVideoExtension file then
        (keepLarger (fst st) file,
         if matchesEpisode pats file then keepLarger (snd st) file else snd st)
      else st)"

definition findBestFileIndex ::
  "TorrentFile list option \<Rightarrow> int option \<Rightarrow> int option \<Rightarrow> int option" where
  "findBestFileIndex files_opt season_opt episode_opt =
     (case files_opt of
        None \<Rightarrow> None
      | Some files \<Rightarrow>
          if files = [] then None
          else
            (let pats = (case season_opt of
                           None \<Rightarrow> None
                         | Some s \<Rightarrow>
                             (case episode_opt of
                                None \<Rightarrow> None
                              | Some e \<Rightarrow> Some (regexPatterns s e)));
                 st = foldl (scanFile pats) (None, None) files
             in case snd st of
                  Some specificEpisodeFile \<Rightarrow> Some (index specificEpisodeFile)
                | None \<Rightarrow>
                    (case fst st of
                       Some largestVideoFile \<Rightarrow> Some (index largestVideoFile)
                     | None \<Rightarrow>
                         if length files = 1 then Some (index (files ! 0)) else None)))"

text \<open>
  The selection as the specification words it: the largest file of a list, the first one
  seen among equals; the best match if there is one, else the largest video file, else
  the only file of the listing.
\<close>

definition isLargestIn :: "TorrentFile list \<Rightarrow> TorrentFile \<Rightarrow> bool" where
  "isLargestIn fs f = (\<forall>g \<in> set fs. size_f g \<le> size_f f)"

definition largestFirst :: "TorrentFile list \<Rightarrow> TorrentFile" where
  "largestFirst fs = hd (filter (isLargestIn fs) fs)"

definition sixPatterns :: "int option \<Rightarrow> int option \<Rightarrow> string list option" where
  "sixPatterns season_opt episode_opt =
     (case (season_opt, episode_opt) of
        (Some s, Some e) \<Rightarrow> Some (regexPatterns s e)
      | _ \<Rightarrow> None)"

definition selectBestFile ::
  "TorrentFile list \<Rightarrow> int option \<Rightarrow> int option \<Rightarrow> int option" where
  "selectBestFile files season_opt episode_opt =
     (let videos = filter hasVideoExtension files;
          matching = filter (matchesEpisode (sixPatterns season_opt episode_opt)) videos
      in if matching \<noteq> [] then Some (index (largestFirst matching))
         else if videos \<noteq> [] then Some (index (largestFirst videos))
         else if length files = 1 then Some (index (hd files))
         else None)"

section \<open>Byte formatting\<close>

text \<open>
  \<^verbatim>\<open>formatBytes(bytes)\<close> with the default of two decimals, which is how every caller
  uses it, for an integer byte count below \<open>2 ^ 53\<close> in absolute value.
  \<^item> The index of the unit, \<^verbatim>\<open>Math.floor(Math.log(bytes) / Math.log(1024))\<close>, is a
    quotient of two double-precision logarithms, whose values the language leaves to
    the platform. It is the parameter \<open>logIndex\<close>: \<open>logIndex bytes\<close> is the index that
    the platform computes for the positive byte count \<open>bytes\<close>. It need not be the
    largest \<open>i\<close> with \<open>1024 ^ i \<le> bytes\<close>: just below a power of 1024 the two
    logarithms can round to a quotient that is the next integer.
  \<^item> \<^verbatim>\<open>bytes / Math.pow(1024, i)\<close> is exact (a division by a power of two), and
    \<^verbatim>\<open>toFixed(2)\<close> rounds its exact value to hundredths, a tie upwards.
  \<^item> \<^verbatim>\<open>parseFloat\<close> and the string concatenation print the hundredths without
    trailing zeros.
  \<^item> A negative count makes the logarithm NaN, so that \<^verbatim>\<open>isNaN(size)\<close> holds and the
    array is read at NaN; reading \<^verbatim>\<open>sizes\<close> outside its nine entries gives
    \<^verbatim>\<open>undefined\<close>.
\<close>

definition sizes :: "string list" where
  "sizes = [''Bytes'', ''KB'', ''MB'', ''GB'', ''TB'', ''PB'', ''EB'', ''ZB'', ''YB'']"

definition sizes_at :: "nat \<Rightarrow> string" where
  "sizes_at i = (if i < length sizes then sizes ! i else ''undefined'')"

text \<open>\<open>toFixed2 b d\<close>: the hundredths of \<open>b / d\<close>, rounded to the nearest, a tie upwards.\<close>

definition toFixed2 :: "int \<Rightarrow> int \<Rightarrow> int" where
  "toFixed2 b d = (200 * b + d) div (2 * d)"

text \<open>The decimal text of a number of hundredths, trailing zeros dropped.\<close>

definition hundredths_string :: "int \<Rightarrow> string" where
  "hundredths_string h =
     string_of_int (h div 100) @
       (if h mod 100 = 0 then []
        else if h mod 10 = 0 then ''.'' @ string_of_int (h mod 100 div 10)
        else ''.'' @ padStart2 (string_of_int (h mod 100)))"

definition formatBytes :: "(int \<Rightarrow> nat) \<Rightarrow> int \<Rightarrow> string" where
  "formatBytes logIndex bytes =
     (if bytes = 0 then ''0 Bytes''
      else if bytes < 0 then ''0 '' @ ''undefined''
      else
        (let i = logIndex bytes;
             size_h = toFixed2 bytes (1024 ^ i)
         in hundredths_string size_h @ '' '' @ sizes_at i))"

section \<open>Search results, configuration and collaborators\<close>

text \<open>
  \<^verbatim>\<open>TorrentInfo\<close> of \<^verbatim>\<open>bitmagnet/functions.ts\<close> and \<^verbatim>\<open>Config\<close> of \<^verbatim>\<open>types.ts\<close>. An
  optional or nullable field is an \<open>option\<close>.
\<close>

record TorrentInfo =
  title :: string
  magnetUrl :: "string option"
  size_t :: "int option"
  resolution :: string
  seeders :: int
  peers :: int
  videoCodec :: "string option"
  videoSource :: "string option"
  languages :: "string list"
  files :: "TorrentFile list option"

record Config =
  bitmagnetUrl :: string
  tmdbApiKey :: "string option"
  premiumizeApiKey :: "string option"
  bitmagnetTimeout :: int
  bitmagnetSortField :: string
  bitmagnetSortDescending :: bool
  bitmagnetSearchLimit :: int

text \<open>The truth value of an optional string: \<^verbatim>\<open>undefined\<close>, \<^verbatim>\<open>null\<close> and \<^verbatim>\<open>''\<close> are false.\<close>

definition truthy :: "string option \<Rightarrow> bool" where
  "truthy s = (case s of None \<Rightarrow> False | Some v \<Rightarrow> v \<noteq> [])"

text \<open>\<^verbatim>\<open>parts.join(sep)\<close>.\<close>

fun join :: "string \<Rightarrow> string list \<Rightarrow> string" where
  "join sep [] = []"
| "join sep [p] = p"
| "join sep (p # q # ps) = p @ sep @ join sep (q # ps)"

section \<open>Query builder\<close>

text \<open>
  \<^verbatim>\<open>TmdbDetails\<close>: what \<^verbatim>\<open>getTmdbDetails\<close> returns when it finds a title. A year that is
  \<^verbatim>\<open>undefined\<close> or NaN is \<open>None\<close> (the code only tests its truth value and prints it).
\<close>

record TmdbDetails =
  title_d :: string
  year_d :: "int option"

record SearchResult =
  torrents :: "TorrentInfo list"
  title_r :: "string option"

datatype error = SearchBackendError

text \<open>
  The result of one run of \<^verbatim>\<open>fetchAndSearchTorrents\<close>: the query strings sent to the
  search backend, in order, and what the function returns (\<open>Inl\<close>: the exception of
  \<^verbatim>\<open>bitmagnetSearch\<close>, which is not caught; \<open>Inr None\<close>: \<^verbatim>\<open>null\<close>).
\<close>

record SearchRun =
  queries :: "string list"
  outcome :: "error + SearchResult option"

text \<open>\<^verbatim>\<open>`${title}${year ? ` ${year}` : ''}`\<close>.\<close>

definition baseQueryOf :: "string \<Rightarrow> int option \<Rightarrow> string" where
  "baseQueryOf t y =
     t @ (case y of None \<Rightarrow> [] | Some n \<Rightarrow> if n = 0 then [] else '' '' @ string_of_int n)"

text \<open>
  \<^verbatim>\<open>fetchAndSearchTorrents\<close>. The two collaborators are parameters: the title lookup
  \<^verbatim>\<open>tmdbApi.getTmdbDetails\<close> (it catches its own errors and returns \<^verbatim>\<open>null\<close>) and the
  search \<^verbatim>\<open>bitmagnetFunctions.bitmagnetSearch\<close> (it throws on failure).
\<close>

definition fetchAndSearchTorrents ::
  "ParsedId \<Rightarrow> Config \<Rightarrow> (string \<Rightarrow> string \<Rightarrow> SearchType \<Rightarrow> TmdbDetails option) \<Rightarrow>
   (string \<Rightarrow> SearchType \<Rightarrow> error + TorrentInfo list) \<Rightarrow> SearchRun" where
  "fetchAndSearchTorrents parsedId config getTmdbDetails bitmagnetSearch =
     (let tmdbDetails =
            (if truthy (tmdbApiKey config)
             then getTmdbDetails (imdbId parsedId) (the (tmdbApiKey config)) (searchType parsedId)
             else None);
          tmdb_title = map_option title_d tmdbDetails;
          year = (case tmdbDetails of None \<Rightarrow> None | Some d \<Rightarrow> year_d d);
          searchQuery =
            (case tmdbDetails of
               None \<Rightarrow> imdbId parsedId
             | Some d \<Rightarrow>
                 (let baseQuery = baseQueryOf (title_d d) (year_d d) in
                  case (searchType parsedId, season parsedId, episode parsedId) of
                    (Series, Some s, Some e) \<Rightarrow>
                      baseQuery @ '' S'' @ padStart2 (string_of_int s) @
                        ''E'' @ padStart2 (string_of_int e)
                  | _ \<Rightarrow> baseQuery))
      in case bitmagnetSearch searchQuery (searchType parsedId) of
           Inl err \<Rightarrow> \<lparr>queries = [searchQuery], outcome = Inl err\<rparr>
         | Inr searchResults \<Rightarrow>
             (case (searchResults = [] \<and> searchType parsedId = Series \<and> truthy tmdb_title,
                    season parsedId) of
                (True, Some s) \<Rightarrow>
                  (let seasonQuery =
                         baseQueryOf (the tmdb_title) year @ '' S'' @
                           padStart2 (string_of_int s)
                   in case bitmagnetSearch seasonQuery (searchType parsedId) of
                        Inl err \<Rightarrow>
                          \<lparr>queries = [searchQuery, seasonQuery], outcome = Inl err\<rparr>
                      | Inr seasonResults \<Rightarrow>
                          \<lparr>queries = [searchQuery, seasonQuery],
                           outcome =
                             Inr (if seasonResults = [] then None
                                  else Some \<lparr>torrents = seasonResults,
                                             title_r = tmdb_title\<rparr>)\<rparr>)
              | _ \<Rightarrow>
                  \<lparr>queries = [searchQuery],
                   outcome =
                     Inr (if searchResults = [] then None
                          else Some \<lparr>torrents = searchResults, title_r = tmdb_title\<rparr>)\<rparr>))"

section \<open>Cache-status lookup\<close>

record PremiumizeCacheStatus =
  isCached :: bool
  filename :: "string option"

text \<open>
  What the one \<^verbatim>\<open>fetch\<close> of \<^verbatim>\<open>checkPremiumizeCacheBulk\<close> can bring: a rejected promise,
  a response that is not \<^verbatim>\<open>ok\<close>, a body that \<^verbatim>\<open>JSON.parse\<close> rejects, the JSON value
  \<^verbatim>\<open>null\<close> (reading a property of it throws), or a JSON value whose fields are read.
  Of such a value the code reads \<^verbatim>\<open>status\<close> (\<open>None\<close>: absent or not a string),
  \<^verbatim>\<open>response\<close> and \<^verbatim>\<open>filename\<close> (\<open>None\<close>: not an array). An entry of \<^verbatim>\<open>response\<close>
  is only compared with \<^verbatim>\<open>true\<close>; an entry of \<^verbatim>\<open>filename\<close> is a string or
  \<^verbatim>\<open>null\<close>.
\<close>

datatype jsval = JNull | JBool bool | JString string | JNumber int

record CacheCheckBody =
  status :: "string option"
  response :: "jsval list option"
  filenames :: "string option list option"

datatype BulkFetch =
  NetworkError
| HttpNotOk
| InvalidJson
| JsonNull
| JsonBody CacheCheckBody

definition notCached :: PremiumizeCacheStatus where
  "notCached = \<lparr>isCached = False, filename = None\<rparr>"

text \<open>\<^verbatim>\<open>infoHashes.forEach(hash => results[hash] = { isCached: false, filename: null })\<close>.\<close>

definition initialResults :: "string list \<Rightarrow> (string \<rightharpoonup> PremiumizeCacheStatus)" where
  "initialResults infoHashes = foldl (\<lambda>results hash. results(hash \<mapsto> notCached)) Map.empty infoHashes"

text \<open>The entry written for index \<open>i\<close> by the loop over the response.\<close>

definition statusAt :: "CacheCheckBody \<Rightarrow> jsval list \<Rightarrow> nat \<Rightarrow> PremiumizeCacheStatus" where
  "statusAt body resp i =
     \<lparr>isCached = (resp ! i = JBool True),
      filename =
        (case filenames body of
           None \<Rightarrow> None
         | Some fs \<Rightarrow> if i < length fs \<and> truthy (fs ! i) then fs ! i else None)\<rparr>"

text \<open>
  The body of the \<^verbatim>\<open>try\<close> block: \<open>Inl\<close> is an exception thrown in it, \<open>Inr\<close> the
  \<^verbatim>\<open>results\<close> object when the block ends or returns.
\<close>

definition bulkTry ::
  "string list \<Rightarrow> BulkFetch \<Rightarrow> unit + (string \<rightharpoonup> PremiumizeCacheStatus)" where
  "bulkTry infoHashes fetched =
     (case fetched of
        NetworkError \<Rightarrow> Inl ()
      | HttpNotOk \<Rightarrow> Inr (initialResults infoHashes)
      | InvalidJson \<Rightarrow> Inl ()
      | JsonNull \<Rightarrow> Inl ()
      | JsonBody body \<Rightarrow>
          (case response body of
             None \<Rightarrow> Inr (initialResults infoHashes)
           | Some resp \<Rightarrow>
               if status body \<noteq> Some ''success'' \<or> length resp \<noteq> length infoHashes
               then Inr (initialResults infoHashes)
               else Inr (foldl (\<lambda>results i. results(infoHashes ! i \<mapsto> statusAt body resp i))
                           (initialResults infoHashes) [0..<length infoHashes])))"

text \<open>
  \<^verbatim>\<open>checkPremiumizeCacheBulk\<close>: an empty list needs no request; an exception of the
  \<^verbatim>\<open>try\<close> block is caught and the \<^verbatim>\<open>results\<close> initialised before it are returned.
\<close>

definition checkPremiumizeCacheBulk ::
  "string \<Rightarrow> string list \<Rightarrow> BulkFetch \<Rightarrow> (string \<rightharpoonup> PremiumizeCacheStatus)" where
  "checkPremiumizeCacheBulk apiKey infoHashes fetched =
     (if infoHashes = [] then Map.empty
      else case bulkTry infoHashes fetched of
             Inl _ \<Rightarrow> initialResults infoHashes
           | Inr results \<Rightarrow> results)"

text \<open>
  The lookup failing entirely: a network error, a status that is not a success, or a body
  that is malformed or does not match the request.
\<close>

definition bulkFailed :: "string list \<Rightarrow> BulkFetch \<Rightarrow> bool" where
  "bulkFailed infoHashes fetched =
     (case fetched of
        JsonBody body \<Rightarrow>
          (status body \<noteq> Some ''success'' \<or>
           (case response body of
              None \<Rightarrow> True
            | Some resp \<Rightarrow> length resp \<noteq> length infoHashes))
      | _ \<Rightarrow> True)"

section \<open>Stream creation\<close>

text \<open>
  \<^verbatim>\<open>Stream\<close> of the Stremio SDK, with the fields this code writes;
  \<open>bingeGroup\<close> is \<^verbatim>\<open>behaviorHints.bingeGroup\<close>.
\<close>

record Stream =
  name_s :: string
  title_s :: string
  url :: "string option"
  infoHash_s :: "string option"
  fileIdx :: "int option"
  sources_s :: "string list option"
  bingeGroup :: "string option"

text \<open>The pictographs of the detail line, as the UTF-8 bytes of the source file.\<close>

definition emoji_disk :: string where
  "emoji_disk = [CHR 0xF0, CHR 0x9F, CHR 0x92, CHR 0xBE]"

definition emoji_bolt :: string where
  "emoji_bolt = [CHR 0xE2, CHR 0x9A, CHR 0xA1]"

definition emoji_person :: string where
  "emoji_person = [CHR 0xF0, CHR 0x9F, CHR 0x91, CHR 0xA4]"

definition emoji_tv :: string where
  "emoji_tv = [CHR 0xF0, CHR 0x9F, CHR 0x93, CHR 0xBA]"

definition emoji_clapper :: string where
  "emoji_clapper = [CHR 0xF0, CHR 0x9F, CHR 0x8E, CHR 0xAC]"

definition emoji_cd :: string where
  "emoji_cd = [CHR 0xF0, CHR 0x9F, CHR 0x92, CHR 0xBF]"

definition emoji_speaking :: string where
  "emoji_speaking = [CHR 0xF0, CHR 0x9F, CHR 0x97, CHR 0xA3, CHR 0xEF, CHR 0xB8, CHR 0x8F]"

text \<open>
  The detail line \<^verbatim>\<open>[...].filter(Boolean).join(' | ')\<close>; \<open>second\<close> is the entry that
  differs between the two kinds of stream, \<open>logIndex\<close> the unit index of the platform
  that \<open>formatBytes\<close> uses.
\<close>

definition detailsOf :: "(int \<Rightarrow> nat) \<Rightarrow> TorrentInfo \<Rightarrow> string \<Rightarrow> string" where
  "detailsOf logIndex torrent second =
     join '' | ''
       ([emoji_disk @ '' '' @
           formatBytes logIndex (case size_t torrent of None \<Rightarrow> 0 | Some n \<Rightarrow> n),
         second,
         emoji_tv @ '' '' @ (if resolution torrent = [] then ''N/A'' else resolution torrent)] @
        (if truthy (videoCodec torrent) then [emoji_clapper @ '' '' @ the (videoCodec torrent)]
         else []) @
        (if truthy (videoSource torrent) then [emoji_cd @ '' '' @ the (videoSource torrent)]
         else []) @
        (if 0 < length (languages torrent)
         then [emoji_speaking @ '' '' @ join '', '' (languages torrent)] else []))"

text \<open>\<^verbatim>\<open>parseMagnetUri(torrent.magnetUrl)?.infoHash\<close>.\<close>

definition infoHashOf :: "TorrentInfo \<Rightarrow> string option" where
  "infoHashOf torrent = map_option infoHash (parseMagnetUri (magnetUrl torrent))"

text \<open>
  \<^verbatim>\<open>processPremiumizeCandidate\<close>. The direct-link service
  \<^verbatim>\<open>premiumizeApi.getPremiumizeDirectDownloadLink\<close> is a parameter: from the key, the
  magnet URI and the search hint it gives a link or \<^verbatim>\<open>null\<close>.
\<close>

definition processPremiumizeCandidate ::
  "(int \<Rightarrow> nat) \<Rightarrow> (string \<Rightarrow> string \<Rightarrow> string \<Rightarrow> string option) \<Rightarrow> Config \<Rightarrow> TorrentInfo \<Rightarrow>
   PremiumizeCacheStatus \<Rightarrow> ParsedId \<Rightarrow> string option \<Rightarrow> Stream option" where
  "processPremiumizeCandidate logIndex getDirectLink config torrent cacheStatus parsedId tmdbTitle =
     (case infoHashOf torrent of
        None \<Rightarrow> None
      | Some hash \<Rightarrow>
          if hash = [] \<or> \<not> truthy (magnetUrl torrent) then None
          else
            (let base = (if truthy tmdbTitle then the tmdbTitle else title torrent);
                 localSearchQuery =
                   (case (searchType parsedId, season parsedId, episode parsedId) of
                      (Series, Some s, Some e) \<Rightarrow>
                        base @ '' S'' @ padStart2 (string_of_int s) @
                          ''E'' @ padStart2 (string_of_int e)
                    | _ \<Rightarrow> base);
                 directLink = getDirectLink (the (premiumizeApiKey config))
                                (the (magnetUrl torrent)) localSearchQuery
             in if truthy directLink then
                  Some \<lparr>name_s = ''[PM] FW Bitmagnet'',
                        title_s = (case filename cacheStatus of None \<Rightarrow> ''null'' | Some f \<Rightarrow> f) @
                                  [CHR 0x0A] @
                                  detailsOf logIndex torrent (emoji_bolt @ '' Premiumize''),
                        url = directLink,
                        infoHash_s = None,
                        fileIdx = None,
                        sources_s = None,
                        bingeGroup = Some (''premiumize-'' @ hash)\<rparr>
                else None))"

text \<open>\<^verbatim>\<open>[...new Set(xs)]\<close>: the elements in the order of their first occurrence.\<close>

definition set_add :: "'a list \<Rightarrow> 'a \<Rightarrow> 'a list" where
  "set_add s x = (if x \<in> set s then s else s @ [x])"

definition new_Set :: "'a list \<Rightarrow> 'a list" where
  "new_Set xs = foldl set_add [] xs"

text \<open>
  \<^verbatim>\<open>[...new Map(entries).values()]\<close>: \<^verbatim>\<open>Map.set\<close> on a key that is present replaces
  the value and leaves the key where it is; a new key goes to the end.
\<close>

fun map_set :: "('k \<times> 'v) list \<Rightarrow> 'k \<Rightarrow> 'v \<Rightarrow> ('k \<times> 'v) list" where
  "map_set [] k v = [(k, v)]"
| "map_set ((k', v') # m) k v = (if k' = k then (k, v) # m else (k', v') # map_set m k v)"

definition new_Map :: "('k \<times> 'v) list \<Rightarrow> ('k \<times> 'v) list" where
  "new_Map entries = foldl (\<lambda>m kv. map_set m (fst kv) (snd kv)) [] entries"

definition map_values :: "('k \<times> 'v) list \<Rightarrow> 'v list" where
  "map_values m = map snd m"

text \<open>The callback of \<^verbatim>\<open>fallbackTorrents.map\<close>; \<open>None\<close> is the \<^verbatim>\<open>null\<close> filtered out after it.\<close>

definition fallbackStream ::
  "(int \<Rightarrow> nat) \<Rightarrow> string list \<Rightarrow> ParsedId \<Rightarrow> TorrentInfo \<Rightarrow> Stream option" where
  "fallbackStream logIndex additionalTrackers parsedId torrent =
     (let parsedMagnet = (if truthy (magnetUrl torrent) then parseMagnetUri (magnetUrl torrent)
                          else None)
      in if truthy (magnetUrl torrent) \<and> parsedMagnet = None then None
         else
           (let hash = map_option infoHash parsedMagnet in
            if title torrent = [] \<and> \<not> truthy hash then None
            else
              (let fileIndex = findBestFileIndex (files torrent) (season parsedId)
                                 (episode parsedId);
                   streamTitle = (if title torrent \<noteq> [] then title torrent else the hash) @
                                 [CHR 0x0A] @
                                 detailsOf logIndex torrent
                                   (emoji_person @ '' '' @ string_of_int (seeders torrent));
                   existingTrackers =
                     (case parsedMagnet of
                        None \<Rightarrow> []
                      | Some pm \<Rightarrow> map (\<lambda>s. ''tracker:'' @ s) (sources pm));
                   fetchedTrackers = map (\<lambda>t. ''tracker:'' @ t) additionalTrackers;
                   allTrackers = new_Set (existingTrackers @ fetchedTrackers)
               in Some \<lparr>name_s = ''[TORRENT] FW Bitmagnet'',
                        title_s = streamTitle,
                        url = None,
                        infoHash_s = (if truthy hash then hash else None),
                        fileIdx = fileIndex,
                        sources_s = (if 0 < length allTrackers then Some allTrackers else None),
                        bingeGroup = None\<rparr>)))"

text \<open>
  The state after the first loop and after the direct-link resolutions:
  \<^verbatim>\<open>premiumizeCandidates\<close>, \<^verbatim>\<open>fallbackTorrents\<close> and \<^verbatim>\<open>premiumizeStreams\<close>.
\<close>

record Reconciled =
  premiumizeCandidates :: "(TorrentInfo \<times> PremiumizeCacheStatus) list"
  fallbackTorrents :: "TorrentInfo list"
  premiumizeStreams :: "Stream list"

text \<open>\<^verbatim>\<open>premiumizeResultsMap\<close>: filled only with a key and at least one info hash.\<close>

definition infoHashesToCheck :: "TorrentInfo list \<Rightarrow> string list" where
  "infoHashesToCheck searchResults = map the (filter truthy (map infoHashOf searchResults))"

definition premiumizeResultsMap ::
  "Config \<Rightarrow> TorrentInfo list \<Rightarrow> BulkFetch \<Rightarrow> (string \<rightharpoonup> PremiumizeCacheStatus)" where
  "premiumizeResultsMap config searchResults fetched =
     (if truthy (premiumizeApiKey config) then
        (if 0 < length (infoHashesToCheck searchResults)
         then checkPremiumizeCacheBulk (the (premiumizeApiKey config))
                (infoHashesToCheck searchResults) fetched
         else Map.empty)
      else Map.empty)"

text \<open>The first loop: each search result goes to the candidates or to the fallback list.\<close>

definition isCandidate ::
  "Config \<Rightarrow> (string \<rightharpoonup> PremiumizeCacheStatus) \<Rightarrow> TorrentInfo \<Rightarrow> bool" where
  "isCandidate config resultsMap torrent =
     (truthy (premiumizeApiKey config) \<and> truthy (infoHashOf torrent) \<and>
      (case resultsMap (the (infoHashOf torrent)) of
         None \<Rightarrow> False
       | Some cacheStatus \<Rightarrow> isCached cacheStatus \<and> truthy (filename cacheStatus)))"

definition firstLoop ::
  "Config \<Rightarrow> (string \<rightharpoonup> PremiumizeCacheStatus) \<Rightarrow> TorrentInfo list \<Rightarrow>
   (TorrentInfo \<times> PremiumizeCacheStatus) list \<times> TorrentInfo list" where
  "firstLoop config resultsMap searchResults =
     foldl (\<lambda>acc torrent.
              if isCandidate config resultsMap torrent
              then (fst acc @ [(torrent, the (resultsMap (the (infoHashOf torrent))))], snd acc)
              else (fst acc, snd acc @ [torrent]))
       ([], []) searchResults"

text \<open>
  The direct-link requests run concurrently; a candidate without a link is pushed to
  \<^verbatim>\<open>fallbackTorrents\<close> when its own request completes. \<open>finishTime i\<close> is the time at
  which the request of candidate \<open>i\<close> completes, so the pushes happen in the order
  \<open>sort_key finishTime\<close> of the candidate indices. \<^verbatim>\<open>Promise.all\<close> keeps the order of
  the candidates.
\<close>

definition reconcile ::
  "(int \<Rightarrow> nat) \<Rightarrow> TorrentInfo list \<Rightarrow> ParsedId \<Rightarrow> string option \<Rightarrow> Config \<Rightarrow>
   BulkFetch \<Rightarrow> (string \<Rightarrow> string \<Rightarrow> string \<Rightarrow> string option) \<Rightarrow> (nat \<Rightarrow> nat) \<Rightarrow>
   Reconciled" where
  "reconcile logIndex searchResults parsedId tmdbTitle config fetched getDirectLink
     finishTime =
     (let resultsMap = premiumizeResultsMap config searchResults fetched;
          candidates = fst (firstLoop config resultsMap searchResults);
          fallback0 = snd (firstLoop config resultsMap searchResults);
          resolved = map (\<lambda>c. processPremiumizeCandidate logIndex getDirectLink config (fst c) (snd c)
                                 parsedId tmdbTitle) candidates;
          pushed = map (\<lambda>i. fst (candidates ! i))
                     (filter (\<lambda>i. resolved ! i = None)
                        (sort_key finishTime [0..<length candidates]))
      in \<lparr>premiumizeCandidates = candidates,
          fallbackTorrents = fallback0 @ pushed,
          premiumizeStreams = map the (filter (\<lambda>s. s \<noteq> None) resolved)\<rparr>)"

text \<open>The final filter.\<close>

definition validStream :: "Stream \<Rightarrow> bool" where
  "validStream stream =
     (truthy (url stream) \<or>
      (name_s stream = ''[TORRENT] FW Bitmagnet'' \<and> truthy (infoHash_s stream) \<and>
       title_s stream \<noteq> []))"

text \<open>
  \<^verbatim>\<open>createStreamsFromTorrents\<close>; \<open>additionalTrackers\<close> is what
  \<^verbatim>\<open>trackerSource.getTrackers()\<close> returns (it catches its own errors).
\<close>

definition uniqueFallbackStreams :: "Stream list \<Rightarrow> Stream list" where
  "uniqueFallbackStreams fallbackStreams =
     map_values (new_Map (map (\<lambda>s. (infoHash_s s, s)) fallbackStreams))"

definition fallbackStreamsOf ::
  "(int \<Rightarrow> nat) \<Rightarrow> string list \<Rightarrow> ParsedId \<Rightarrow> TorrentInfo list \<Rightarrow> Stream list" where
  "fallbackStreamsOf logIndex additionalTrackers parsedId ts =
     map the (filter (\<lambda>s. s \<noteq> None) (map (fallbackStream logIndex additionalTrackers parsedId) ts))"

definition createStreamsFromTorrents ::
  "(int \<Rightarrow> nat) \<Rightarrow> TorrentInfo list \<Rightarrow> ParsedId \<Rightarrow> string option \<Rightarrow> Config \<Rightarrow>
   string list \<Rightarrow> BulkFetch \<Rightarrow> (string \<Rightarrow> string \<Rightarrow> string \<Rightarrow> string option) \<Rightarrow>
   (nat \<Rightarrow> nat) \<Rightarrow> Stream list" where
  "createStreamsFromTorrents logIndex searchResults parsedId tmdbTitle config additionalTrackers
     fetched getDirectLink finishTime =
     (let r = reconcile logIndex searchResults parsedId tmdbTitle config fetched getDirectLink
                finishTime;
          fallbackStreams = fallbackStreamsOf logIndex additionalTrackers parsedId
                              (fallbackTorrents r);
          allStreams = premiumizeStreams r @ uniqueFallbackStreams fallbackStreams
      in filter validStream allStreams)"

section \<open>Test doubles\<close>

text \<open>
  The collaborators of the examples, as the stubs of the repository's tests: a title
  lookup that finds \<open>d\<close>, a search that returns \<open>r\<close> for every query, a direct-link
  service that returns \<^verbatim>\<open>null\<close>, one that has a link for every magnet URI but
  \<open>failing\<close>, requests that all complete at the same time, and requests that complete
  in the reverse of the order of their candidates.
  \<open>titleLine\<close> is the first line of the title of a stream. \<open>exactLogIndex\<close> is the
  unit index of a platform whose logarithms are exact: the largest \<open>i\<close> with
  \<open>1024 ^ i \<le> bytes\<close>.
\<close>

fun floorLog1024 :: "nat \<Rightarrow> nat" where
  "floorLog1024 n = (if n < 1024 then 0 else Suc (floorLog1024 (n div 1024)))"

declare floorLog1024.simps [simp del]

definition exactLogIndex :: "int \<Rightarrow> nat" where
  "exactLogIndex bytes = floorLog1024 (nat bytes)"

definition tmdbFinds :: "TmdbDetails \<Rightarrow> string \<Rightarrow> string \<Rightarrow> SearchType \<Rightarrow> TmdbDetails option" where
  "tmdbFinds d imdb apiKey st = Some d"

definition searchReturns ::
  "TorrentInfo list \<Rightarrow> string \<Rightarrow> SearchType \<Rightarrow> error + TorrentInfo list" where
  "searchReturns r query st = Inr r"

definition noDirectLink :: "string \<Rightarrow> string \<Rightarrow> string \<Rightarrow> string option" where
  "noDirectLink apiKey magnet query = None"

definition allAtOnce :: "nat \<Rightarrow> nat" where
  "allAtOnce i = 0"

definition directLinkUnless :: "string \<Rightarrow> string \<Rightarrow> string \<Rightarrow> string \<Rightarrow> string option" where
  "directLinkUnless failing apiKey magnet query =
     (if magnet = failing then None else Some (''https://dl.example/'' @ query))"

definition laterFirst :: "nat \<Rightarrow> nat" where
  "laterFirst i = 10 - i"

definition titleLine :: "Stream \<Rightarrow> string" where
  "titleLine stream = takeWhile (\<lambda>c. c \<noteq> CHR 0x0A) (title_s stream)"

section \<open>Properties of the identifier parser\<close>

lemma split_chr_no_sep: "c \<notin> set s \<Longrightarrow> split_chr c s = [s]"
  by (induction s) auto

text \<open>
  C9. A series request whose id starts with \<open>tt\<close> and has no colon is accepted: the
  result has kind series, the whole id as external id, and neither season nor episode.
\<close>

theorem parseStremioId_series_top_level:
  assumes "startsWith id_arg ''tt''" and "\<not> includes_chr id_arg CHR '':''"
  shows "parseStremioId ''series'' id_arg =
           Some \<lparr>imdbId = id_arg, season = None, episode = None, searchType = Series\<rparr>"
  using assms by (simp add: parseStremioId_def)

theorem parseStremioId_series_top_level_witness:
  "startsWith ''tt7654321'' ''tt'' \<and> \<not> includes_chr ''tt7654321'' CHR '':'' \<and>
   parseStremioId ''series'' ''tt7654321'' =
     Some \<lparr>imdbId = ''tt7654321'', season = None, episode = None, searchType = Series\<rparr>"
proof -
  have a: "startsWith ''tt7654321'' ''tt''" by (simp add: startsWith_def)
  have b: "\<not> includes_chr ''tt7654321'' CHR '':''" by (simp add: includes_chr_def)
  show ?thesis using a b parseStremioId_series_top_level [OF a b] by simp
qed

lemma split_chr_append:
  "c \<notin> set a \<Longrightarrow> split_chr c (a @ c # b) = a # split_chr c b"
  by (induction a) auto

























section \<open>Properties of the magnet parser\<close>

lemma percentDecode_plain_head:
  "c \<noteq> CHR ''%'' \<Longrightarrow> percentDecode (c # cs) = c # percentDecode cs"
  by (cases "(c # cs)" rule: percentDecode.cases) auto

lemma percentDecode_plain: "CHR ''%'' \<notin> set s \<Longrightarrow> percentDecode s = s"
  by (induction s) (auto simp add: percentDecode_plain_head)

lemma plusToSpace_plain: "CHR ''+'' \<notin> set s \<Longrightarrow> plusToSpace s = s"
  by (induction s) (auto simp add: plusToSpace_def)

lemma hexDigitOf_props:
  "\<forall>k \<in> set [0..<16]. isHexDigit (hexDigitOf k) \<and> hexValue (hexDigitOf k) = k \<and>
      hexDigitOf k \<noteq> CHR ''&'' \<and> hexDigitOf k \<noteq> CHR ''+'' \<and> hexDigitOf k \<noteq> CHR ''=''"
  by code_simp

lemma hexDigitOf_lt16:
  assumes "k < 16"
  shows "isHexDigit (hexDigitOf k)" "hexValue (hexDigitOf k) = k"
    "hexDigitOf k \<noteq> CHR ''&''" "hexDigitOf k \<noteq> CHR ''+''"
  using assms hexDigitOf_props by simp_all

lemma isUnreserved_not_special:
  "isUnreserved c \<Longrightarrow> c \<noteq> CHR ''%'' \<and> c \<noteq> CHR ''&'' \<and> c \<noteq> CHR ''+''"
  by (auto simp add: isUnreserved_def)

lemma of_char_div16: "(of_char c :: nat) div 16 < 16"
proof -
  have "(of_char c :: nat) < 256" by simp
  then show ?thesis by arith
qed

lemma percentDecode_encodeChar:
  "percentDecode (encodeChar c @ rest) = c # percentDecode rest"
proof (cases "isUnreserved c")
  case True
  then show ?thesis
    using isUnreserved_not_special [of c] by (simp add: encodeChar_def percentDecode_plain_head)
next
  case False
  have "char_of (16 * ((of_char c :: nat) div 16) + of_char c mod 16) = c"
    by simp
  then show ?thesis
    using False by (simp add: encodeChar_def hexDigitOf_lt16 of_char_div16)
qed

lemma percentDecode_encodeURIComponent:
  "percentDecode (encodeURIComponent t) = t"
  by (induction t) (simp_all add: encodeURIComponent_def percentDecode_encodeChar)

lemma encodeChar_no_special:
  "CHR ''&'' \<notin> set (encodeChar c) \<and> CHR ''+'' \<notin> set (encodeChar c)"
proof -
  have m: "(of_char c :: nat) mod 16 < 16" by simp
  note hi = hexDigitOf_lt16 [OF of_char_div16 [of c]] and lo = hexDigitOf_lt16 [OF m]
  show ?thesis
    using isUnreserved_not_special [of c] hi(3,4) lo(3,4)
    by (auto simp add: encodeChar_def)
qed

lemma encodeURIComponent_no_special:
  "CHR ''&'' \<notin> set (encodeURIComponent t) \<and> CHR ''+'' \<notin> set (encodeURIComponent t)"
  using encodeChar_no_special by (induction t) (auto simp add: encodeURIComponent_def)

lemma startsWith_append: "startsWith s p \<Longrightarrow> s = p @ drop (length p) s"
  by (metis append_take_drop_id startsWith_def)

lemma btihHere_decompose:
  assumes "btihHere s"
  shows "s = ''urn:btih:'' @ take 40 (drop 9 s) @ drop 40 (drop 9 s)"
    and "length (take 40 (drop 9 s)) = 40"
    and "list_all isHexDigit (take 40 (drop 9 s))"
proof -
  have "startsWith s ''urn:btih:''" using assms by (simp add: btihHere_def)
  then have "s = ''urn:btih:'' @ drop (length ''urn:btih:'') s" by (rule startsWith_append)
  moreover have "length ''urn:btih:'' = 9" by simp
  ultimately have "s = ''urn:btih:'' @ drop 9 s" by (simp only:)
  then show "s = ''urn:btih:'' @ take 40 (drop 9 s) @ drop 40 (drop 9 s)"
    by (simp only: append_take_drop_id)
  show "length (take 40 (drop 9 s)) = 40"
    using assms by (simp add: btihHere_def)
  show "list_all isHexDigit (take 40 (drop 9 s))"
    using assms by (simp add: btihHere_def)
qed

lemma btihHere_intro:
  assumes "length h = 40" "list_all isHexDigit h"
  shows "btihHere (''urn:btih:'' @ h @ post)" "take 40 (drop 9 (''urn:btih:'' @ h @ post)) = h"
  using assms by (simp_all add: btihHere_def startsWith_def)

lemma match_btih_Some:
  "match_btih s = Some h \<Longrightarrow>
     length h = 40 \<and> list_all isHexDigit h \<and> (\<exists>pre post. s = pre @ ''urn:btih:'' @ h @ post)"
proof (induction s)
  case Nil
  then show ?case by simp
next
  case (Cons c cs)
  show ?case
  proof (cases "btihHere (c # cs)")
    case True
    then have h: "h = take 40 (drop 9 (c # cs))"
      using Cons.prems by simp
    from btihHere_decompose [OF True]
    have "c # cs = [] @ ''urn:btih:'' @ h @ drop 40 (drop 9 (c # cs))"
      and "length h = 40" and "list_all isHexDigit h"
      unfolding h by simp_all
    then show ?thesis by blast
  next
    case False
    then have "match_btih cs = Some h"
      using Cons.prems by simp
    then obtain pre post where "length h = 40" "list_all isHexDigit h"
      "cs = pre @ ''urn:btih:'' @ h @ post"
      using Cons.IH by blast
    then have "c # cs = (c # pre) @ ''urn:btih:'' @ h @ post" by simp
    then show ?thesis using \<open>length h = 40\<close> \<open>list_all isHexDigit h\<close> by blast
  qed
qed

lemma match_btih_at_head:
  assumes "length h = 40" "list_all isHexDigit h"
  shows "match_btih (''urn:btih:'' @ h @ post) = Some h"
proof -
  have "match_btih (CHR ''u'' # (''rn:btih:'' @ h @ post)) =
          (if btihHere (CHR ''u'' # (''rn:btih:'' @ h @ post))
           then Some (take 40 (drop 9 (CHR ''u'' # (''rn:btih:'' @ h @ post))))
           else match_btih (''rn:btih:'' @ h @ post))"
    by (rule match_btih.simps)
  moreover have "CHR ''u'' # (''rn:btih:'' @ h @ post) = ''urn:btih:'' @ h @ post" by simp
  ultimately show ?thesis
    using btihHere_intro [OF assms, of post] by (simp only: if_True)
qed

lemma match_btih_None:
  assumes "match_btih s = None" "length h = 40" "list_all isHexDigit h"
  shows "s \<noteq> pre @ ''urn:btih:'' @ h @ post"
  using assms(1)
proof (induction pre arbitrary: s)
  case Nil
  then show ?case using match_btih_at_head [OF assms(2,3), of post] by auto
next
  case (Cons c pre)
  show ?case
  proof
    assume eq: "s = (c # pre) @ ''urn:btih:'' @ h @ post"
    then have "match_btih (pre @ ''urn:btih:'' @ h @ post) = None"
      using Cons.prems by (simp split: if_splits)
    then show False using Cons.IH by blast
  qed
qed

lemma hex_no_special:
  assumes "list_all isHexDigit h"
  shows "CHR ''&'' \<notin> set h" "CHR ''+'' \<notin> set h" "CHR ''%'' \<notin> set h" "CHR ''='' \<notin> set h"
proof -
  have "\<not> isHexDigit CHR ''&''" "\<not> isHexDigit CHR ''+''" "\<not> isHexDigit CHR ''%''"
    "\<not> isHexDigit CHR ''=''"
    by (simp_all add: isHexDigit_def)
  then show "CHR ''&'' \<notin> set h" "CHR ''+'' \<notin> set h" "CHR ''%'' \<notin> set h"
    "CHR ''='' \<notin> set h"
    using assms unfolding list_all_iff by blast+
qed

lemma match_btih_leftmost:
  "match_btih s = Some h \<Longrightarrow>
     \<exists>pre post. s = pre @ ''urn:btih:'' @ h @ post \<and> length h = 40 \<and> list_all isHexDigit h \<and>
       (\<forall>pre' h' post'. s = pre' @ ''urn:btih:'' @ h' @ post' \<and> length h' = 40 \<and>
           list_all isHexDigit h' \<longrightarrow> length pre \<le> length pre')"
proof (induction s)
  case Nil
  then show ?case by simp
next
  case (Cons c cs)
  show ?case
  proof (cases "btihHere (c # cs)")
    case True
    then have h: "h = take 40 (drop 9 (c # cs))"
      using Cons.prems by simp
    from btihHere_decompose [OF True]
    have "c # cs = [] @ ''urn:btih:'' @ h @ drop 40 (drop 9 (c # cs))"
      and "length h = 40" and "list_all isHexDigit h"
      unfolding h by simp_all
    moreover have "length ([] :: string) \<le> length pre'" for pre' :: string by simp
    ultimately show ?thesis by blast
  next
    case False
    then have "match_btih cs = Some h"
      using Cons.prems by simp
    then obtain pre post where d: "cs = pre @ ''urn:btih:'' @ h @ post" "length h = 40"
      "list_all isHexDigit h"
      and least: "\<And>pre' h' post'. cs = pre' @ ''urn:btih:'' @ h' @ post' \<Longrightarrow> length h' = 40 \<Longrightarrow>
           list_all isHexDigit h' \<Longrightarrow> length pre \<le> length pre'"
      using Cons.IH by blast
    have eq: "c # cs = (c # pre) @ ''urn:btih:'' @ h @ post" using d(1) by simp
    have "length (c # pre) \<le> length pre'"
      if a: "c # cs = pre' @ ''urn:btih:'' @ h' @ post'" "length h' = 40" "list_all isHexDigit h'"
      for pre' h' post'
    proof (cases pre')
      case Nil
      then have "btihHere (c # cs)"
        using btihHere_intro(1) [OF a(2,3), of post'] a(1) by simp
      then show ?thesis using False by simp
    next
      case (Cons c' p')
      then have "cs = p' @ ''urn:btih:'' @ h' @ post'" using a(1) by simp
      then have "length pre \<le> length p'" using a(2,3) by (rule least)
      then show ?thesis using Cons by simp
    qed
    then show ?thesis using eq d(2,3) by blast
  qed
qed

lemma split_trackers:
  assumes "CHR ''&'' \<notin> set a" "\<forall>t \<in> set ts. CHR ''&'' \<notin> set (enc t)"
  shows "split_chr CHR ''&'' (a @ concat (map (\<lambda>t. ''&tr='' @ enc t) ts)) =
           a # map (\<lambda>t. ''tr='' @ enc t) ts"
  using assms
proof (induction ts arbitrary: a)
  case Nil
  then show ?case by (simp add: split_chr_no_sep)
next
  case (Cons t ts)
  define piece where "piece = ''tr='' @ enc t"
  define rest where "rest = concat (map (\<lambda>t. ''&tr='' @ enc t) ts)"
  have "CHR ''&'' \<notin> set piece"
    using Cons.prems(2) by (simp add: piece_def)
  moreover have "\<forall>t \<in> set ts. CHR ''&'' \<notin> set (enc t)"
    using Cons.prems(2) by simp
  ultimately have ih: "split_chr CHR ''&'' (piece @ rest) =
              piece # map (\<lambda>t. ''tr='' @ enc t) ts"
    unfolding rest_def by (rule Cons.IH)
  have "a @ concat (map (\<lambda>t. ''&tr='' @ enc t) (t # ts)) =
        a @ CHR ''&'' # (piece @ rest)"
    by (simp add: piece_def rest_def)
  then have "split_chr CHR ''&'' (a @ concat (map (\<lambda>t. ''&tr='' @ enc t) (t # ts))) =
        split_chr CHR ''&'' (a @ CHR ''&'' # (piece @ rest))"
    by (simp only:)
  also have "\<dots> = a # split_chr CHR ''&'' (piece @ rest)"
    using Cons.prems(1) by (rule split_chr_append)
  also have "\<dots> = a # piece # map (\<lambda>t. ''tr='' @ enc t) ts"
    by (simp only: ih)
  also have "\<dots> = a # map (\<lambda>t. ''tr='' @ enc t) (t # ts)"
    by (simp only: list.map piece_def)
  finally show ?case .
qed

lemma parsePair_tr: "parsePair (''tr='' @ encodeURIComponent t) = (''tr'', t)"
proof -
  have "plusToSpace (encodeURIComponent t) = encodeURIComponent t"
    using encodeURIComponent_no_special [of t] by (intro plusToSpace_plain) simp
  moreover have "plusToSpace ''tr'' = ''tr''"
    by (simp add: plusToSpace_def)
  ultimately show ?thesis
    by (simp add: parsePair_def percentDecode_encodeURIComponent)
qed

lemma parsePair_tr_plain:
  assumes "plainTracker t"
  shows "parsePair (''tr='' @ t) = (''tr'', t)"
proof -
  have "plusToSpace t = t"
    using assms by (intro plusToSpace_plain) (simp add: plainTracker_def)
  moreover have "percentDecode t = t"
    using assms by (intro percentDecode_plain) (simp add: plainTracker_def)
  moreover have "plusToSpace ''tr'' = ''tr''"
    by (simp add: plusToSpace_def)
  ultimately show ?thesis
    by (simp add: parsePair_def)
qed

lemma parsePair_xt:
  assumes "list_all isHexDigit h"
  shows "parsePair (''xt=urn:btih:'' @ h) = (''xt'', ''urn:btih:'' @ h)"
proof -
  define v where "v = ''urn:btih:'' @ h"
  have "plusToSpace v = v"
    using hex_no_special(2) [OF assms] by (intro plusToSpace_plain) (simp add: v_def)
  moreover have "percentDecode v = v"
    using hex_no_special(3) [OF assms] by (intro percentDecode_plain) (simp add: v_def)
  moreover have "plusToSpace ''xt'' = ''xt''"
    by (simp add: plusToSpace_def)
  moreover have "''xt=urn:btih:'' @ h = ''xt='' @ v"
    by (simp add: v_def)
  ultimately show ?thesis
    unfolding v_def [symmetric] by (simp add: parsePair_def)
qed

lemma URLSearchParams_built:
  assumes "list_all isHexDigit h"
    and "\<forall>t \<in> set ts. CHR ''&'' \<notin> set (enc t) \<and> parsePair (''tr='' @ enc t) = (''tr'', t)"
  shows "URLSearchParams (''xt=urn:btih:'' @ h @ concat (map (\<lambda>t. ''&tr='' @ enc t) ts)) =
         (''xt'', ''urn:btih:'' @ h) # map (\<lambda>t. (''tr'', t)) ts"
proof -
  define first where "first = ''xt=urn:btih:'' @ h"
  define body where "body = first @ concat (map (\<lambda>t. ''&tr='' @ enc t) ts)"
  have "CHR ''&'' \<notin> set first"
    using hex_no_special(1) [OF assms(1)] by (simp add: first_def)
  moreover have "\<forall>t \<in> set ts. CHR ''&'' \<notin> set (enc t)"
    using assms(2) by simp
  ultimately have "split_chr CHR ''&'' (first @ concat (map (\<lambda>t. ''&tr='' @ enc t) ts)) =
      first # map (\<lambda>t. ''tr='' @ enc t) ts"
    by (rule split_trackers)
  then have sp: "split_chr CHR ''&'' body = first # map (\<lambda>t. ''tr='' @ enc t) ts"
    by (simp only: body_def)
  have ne: "filter (\<lambda>piece. piece \<noteq> []) (map (\<lambda>t. ''tr='' @ enc t) ts) =
            map (\<lambda>t. ''tr='' @ enc t) ts"
    by (induction ts) simp_all
  have f1: "first \<noteq> []" by (simp add: first_def)
  have nq: "\<not> startsWith body ''?''"
    by (simp add: body_def first_def startsWith_def)
  have "URLSearchParams body =
        map parsePair (first # map (\<lambda>t. ''tr='' @ enc t) ts)"
    using nq f1 by (simp add: URLSearchParams_def sp ne)
  also have "\<dots> = parsePair first # map (\<lambda>t. parsePair (''tr='' @ enc t)) ts"
    by (simp only: list.map map_map o_def)
  also have "map (\<lambda>t. parsePair (''tr='' @ enc t)) ts = map (\<lambda>t. (''tr'', t)) ts"
    using assms(2) by (intro map_cong) simp_all
  also have "parsePair first = (''xt'', ''urn:btih:'' @ h)"
    unfolding first_def by (rule parsePair_xt [OF assms(1)])
  finally show ?thesis
    by (simp only: body_def first_def append_assoc)
qed

lemma parseMagnetUri_built:
  assumes "length h = 40" "list_all isHexDigit h"
    and "\<forall>t \<in> set ts. CHR ''&'' \<notin> set (enc t) \<and> parsePair (''tr='' @ enc t) = (''tr'', t)"
  shows "parseMagnetUri (Some (buildMagnetUri enc h ts)) =
           Some \<lparr>infoHash = toLowerCase h, sources = filter (\<lambda>t. t \<noteq> []) ts\<rparr>"
proof -
  define body where
    "body = ''xt=urn:btih:'' @ h @ concat (map (\<lambda>t. ''&tr='' @ enc t) ts)"
  define u where "u = ''magnet:?'' @ body"
  have bu: "buildMagnetUri enc h ts = u"
    by (simp add: buildMagnetUri_def u_def body_def)
  have sw: "startsWith u ''magnet:?''" "u \<noteq> []"
    by (simp_all add: startsWith_def u_def)
  have ix: "indexOf u CHR ''?'' = 7"
    by (simp add: indexOf_def u_def)
  have sub: "substring_from u (indexOf u CHR ''?'' + 1) = body"
    unfolding ix by (simp add: substring_from_def u_def)
  define v where "v = ''urn:btih:'' @ h"
  have ps: "URLSearchParams body = (''xt'', v) # map (\<lambda>t. (''tr'', t)) ts"
    unfolding body_def v_def by (rule URLSearchParams_built [OF assms(2,3)])
  have xt: "params_get (URLSearchParams body) ''xt'' = Some v"
    by (simp add: params_get_def ps)
  have "params_getAll ((''xt'', v) # map (\<lambda>t. (''tr'', t)) ts) ''tr'' = ts" for v
    by (induction ts) (simp_all add: params_getAll_def)
  then have tr: "params_getAll (URLSearchParams body) ''tr'' = ts"
    by (simp only: ps)
  have m: "match_btih v = Some h"
    using match_btih_at_head [OF assms(1,2), of "[]"] by (simp only: v_def append_Nil2)
  have "h \<noteq> []" using assms(1) by auto
  then show ?thesis
    unfolding bu parseMagnetUri_def
    using sw by (simp add: sub xt tr m)
qed

lemma parseMagnetUri_built_encoded:
  assumes "length h = 40" "list_all isHexDigit h"
  shows "parseMagnetUri (Some (buildMagnetUri encodeURIComponent h ts)) =
           Some \<lparr>infoHash = toLowerCase h, sources = filter (\<lambda>t. t \<noteq> []) ts\<rparr>"
  using assms
proof (rule parseMagnetUri_built)
  show "\<forall>t \<in> set ts. CHR ''&'' \<notin> set (encodeURIComponent t) \<and>
          parsePair (''tr='' @ encodeURIComponent t) = (''tr'', t)"
    using encodeURIComponent_no_special parsePair_tr by blast
qed

lemma parseMagnetUri_built_plain:
  assumes "length h = 40" "list_all isHexDigit h" "list_all plainTracker ts"
  shows "parseMagnetUri (Some (buildMagnetUri (\<lambda>t. t) h ts)) =
           Some \<lparr>infoHash = toLowerCase h, sources = filter (\<lambda>t. t \<noteq> []) ts\<rparr>"
  using assms(1,2)
proof (rule parseMagnetUri_built)
  show "\<forall>t \<in> set ts. CHR ''&'' \<notin> set t \<and> parsePair (''tr='' @ t) = (''tr'', t)"
    using assms(3) parsePair_tr_plain by (auto simp add: list_all_iff plainTracker_def)
qed

lemma parseMagnetUri_not_magnet:
  "\<not> startsWith u ''magnet:?'' \<Longrightarrow> parseMagnetUri (Some u) = None"
  by (simp add: parseMagnetUri_def)

lemma parseMagnetUri_result:
  assumes "startsWith u ''magnet:?''"
  shows "parseMagnetUri (Some u) =
           (case params_get (URLSearchParams (drop 8 u)) ''xt'' of
              None \<Rightarrow> None
            | Some xt \<Rightarrow>
                (case match_btih xt of
                   None \<Rightarrow> None
                 | Some h \<Rightarrow>
                     Some \<lparr>infoHash = toLowerCase h,
                           sources = filter (\<lambda>t. t \<noteq> [])
                                       (params_getAll (URLSearchParams (drop 8 u)) ''tr'')\<rparr>))"
proof -
  have "length ''magnet:?'' = 8" by simp
  with startsWith_append [OF assms] have u: "u = ''magnet:?'' @ drop 8 u"
    by (simp only:)
  have ne: "u \<noteq> []" using u by auto
  have "indexOf (''magnet:?'' @ drop 8 u) CHR ''?'' = 7"
    by (simp add: indexOf_def)
  then have ix: "indexOf u CHR ''?'' = 7" using u by simp
  have sub: "substring_from u (indexOf u CHR ''?'' + 1) = drop 8 u"
    unfolding ix by (simp add: substring_from_def)
  have nonempty: "match_btih xt = Some h \<Longrightarrow> h \<noteq> []" for xt h
    using match_btih_Some [of xt h] by auto
  show ?thesis
    unfolding parseMagnetUri_def
    using assms ne nonempty by (auto simp add: sub Let_def split: option.splits)
qed

text \<open>
  C5, as the code has it. The parser returns \<^verbatim>\<open>null\<close> for an absent input, for an input
  that does not start with \<^verbatim>\<open>magnet:?\<close>, and when the \<^verbatim>\<open>xt\<close> parameter is missing or
  holds no \<^verbatim>\<open>urn:btih:\<close> followed by 40 hexadecimal digits. Otherwise it returns, in
  lower case, the 40 hexadecimal digits that follow the leftmost such \<^verbatim>\<open>urn:btih:\<close>,
  together with every non-empty \<^verbatim>\<open>tr\<close> value in the order of occurrence, duplicates
  included. A magnet URI built from a 40-digit hash \<open>h\<close> and trackers \<open>ts\<close>, written
  with \<^verbatim>\<open>encodeURIComponent\<close> or, when they allow it, as they are, parses back to \<open>h\<close>
  in lower case and the non-empty trackers in their order.
\<close>

theorem parseMagnetUri_contract:
  "parseMagnetUri None = None \<and>
   (\<not> startsWith u' ''magnet:?'' \<longrightarrow> parseMagnetUri (Some u') = None) \<and>
   (startsWith u ''magnet:?'' \<longrightarrow>
      (case params_get (URLSearchParams (drop 8 u)) ''xt'' of
         None \<Rightarrow> parseMagnetUri (Some u) = None
       | Some xt \<Rightarrow>
           if \<exists>pre h post. xt = pre @ ''urn:btih:'' @ h @ post \<and> length h = 40 \<and>
                 list_all isHexDigit h
           then \<exists>pre h post. xt = pre @ ''urn:btih:'' @ h @ post \<and> length h = 40 \<and>
                  list_all isHexDigit h \<and>
                  (\<forall>pre' h' post'. xt = pre' @ ''urn:btih:'' @ h' @ post' \<and> length h' = 40 \<and>
                      list_all isHexDigit h' \<longrightarrow> length pre \<le> length pre') \<and>
                  parseMagnetUri (Some u) =
                    Some \<lparr>infoHash = toLowerCase h,
                          sources = filter (\<lambda>t. t \<noteq> [])
                                      (params_getAll (URLSearchParams (drop 8 u)) ''tr'')\<rparr>
           else parseMagnetUri (Some u) = None)) \<and>
   (length h = 40 \<and> list_all isHexDigit h \<longrightarrow>
      parseMagnetUri (Some (buildMagnetUri encodeURIComponent h ts)) =
        Some \<lparr>infoHash = toLowerCase h, sources = filter (\<lambda>t. t \<noteq> []) ts\<rparr>) \<and>
   (length h = 40 \<and> list_all isHexDigit h \<and> list_all plainTracker ts \<longrightarrow>
      parseMagnetUri (Some (buildMagnetUri (\<lambda>t. t) h ts)) =
        Some \<lparr>infoHash = toLowerCase h, sources = filter (\<lambda>t. t \<noteq> []) ts\<rparr>)"
proof (intro conjI impI)
  show "parseMagnetUri None = None"
    by (simp add: parseMagnetUri_def)
  show "parseMagnetUri (Some u') = None" if "\<not> startsWith u' ''magnet:?''"
    using that by (rule parseMagnetUri_not_magnet)
  show "parseMagnetUri (Some (buildMagnetUri encodeURIComponent h ts)) =
          Some \<lparr>infoHash = toLowerCase h, sources = filter (\<lambda>t. t \<noteq> []) ts\<rparr>"
    if "length h = 40 \<and> list_all isHexDigit h"
    using that by (simp add: parseMagnetUri_built_encoded)
  show "parseMagnetUri (Some (buildMagnetUri (\<lambda>t. t) h ts)) =
          Some \<lparr>infoHash = toLowerCase h, sources = filter (\<lambda>t. t \<noteq> []) ts\<rparr>"
    if "length h = 40 \<and> list_all isHexDigit h \<and> list_all plainTracker ts"
    using that by (simp add: parseMagnetUri_built_plain)
  show "case params_get (URLSearchParams (drop 8 u)) ''xt'' of
         None \<Rightarrow> parseMagnetUri (Some u) = None
       | Some xt \<Rightarrow>
           if \<exists>pre h post. xt = pre @ ''urn:btih:'' @ h @ post \<and> length h = 40 \<and>
                 list_all isHexDigit h
           then \<exists>pre h post. xt = pre @ ''urn:btih:'' @ h @ post \<and> length h = 40 \<and>
                  list_all isHexDigit h \<and>
                  (\<forall>pre' h' post'. xt = pre' @ ''urn:btih:'' @ h' @ post' \<and> length h' = 40 \<and>
                      list_all isHexDigit h' \<longrightarrow> length pre \<le> length pre') \<and>
                  parseMagnetUri (Some u) =
                    Some \<lparr>infoHash = toLowerCase h,
                          sources = filter (\<lambda>t. t \<noteq> [])
                                      (params_getAll (URLSearchParams (drop 8 u)) ''tr'')\<rparr>
           else parseMagnetUri (Some u) = None"
    if sw: "startsWith u ''magnet:?''"
  proof (cases "params_get (URLSearchParams (drop 8 u)) ''xt''")
    case None
    then show ?thesis by (simp add: parseMagnetUri_result [OF sw])
  next
    case xt_some: (Some xt)
    show ?thesis
    proof (cases "match_btih xt")
      case None
      then have "\<not> (\<exists>pre h post. xt = pre @ ''urn:btih:'' @ h @ post \<and> length h = 40 \<and>
                 list_all isHexDigit h)"
        using match_btih_None [of xt] by blast
      then show ?thesis
        using xt_some None by (simp add: parseMagnetUri_result [OF sw])
    next
      case (Some h)
      from match_btih_leftmost [OF this] obtain pre post where
        d: "xt = pre @ ''urn:btih:'' @ h @ post" "length h = 40" "list_all isHexDigit h"
          "\<forall>pre' h' post'. xt = pre' @ ''urn:btih:'' @ h' @ post' \<and> length h' = 40 \<and>
              list_all isHexDigit h' \<longrightarrow> length pre \<le> length pre'"
        by blast
      have r: "parseMagnetUri (Some u) =
                 Some \<lparr>infoHash = toLowerCase h,
                       sources = filter (\<lambda>t. t \<noteq> [])
                                   (params_getAll (URLSearchParams (drop 8 u)) ''tr'')\<rparr>"
        using xt_some Some by (simp add: parseMagnetUri_result [OF sw])
      have ex: "\<exists>pre h post. xt = pre @ ''urn:btih:'' @ h @ post \<and> length h = 40 \<and>
                  list_all isHexDigit h \<and>
                  (\<forall>pre' h' post'. xt = pre' @ ''urn:btih:'' @ h' @ post' \<and> length h' = 40 \<and>
                      list_all isHexDigit h' \<longrightarrow> length pre \<le> length pre') \<and>
                  parseMagnetUri (Some u) =
                    Some \<lparr>infoHash = toLowerCase h,
                          sources = filter (\<lambda>t. t \<noteq> [])
                                      (params_getAll (URLSearchParams (drop 8 u)) ''tr'')\<rparr>"
        using d r by blast
      have "\<exists>pre h post. xt = pre @ ''urn:btih:'' @ h @ post \<and> length h = 40 \<and>
                  list_all isHexDigit h"
        using d(1,2,3) by blast
      then show ?thesis
        using ex xt_some by (simp only: option.case if_True)
    qed
  qed
qed

theorem parseMagnetUri_contract_witness:
  "\<not> startsWith ''http://example.org/x'' ''magnet:?'' \<and>
   parseMagnetUri (Some ''http://example.org/x'') = None \<and>
   length ''0123456789ABCDEF0123456789abcdef01234567'' = 40 \<and>
   list_all isHexDigit ''0123456789ABCDEF0123456789abcdef01234567'' \<and>
   buildMagnetUri encodeURIComponent ''0123456789ABCDEF0123456789abcdef01234567''
       [''udp://t.example:80/a b'', [], ''x&y'']
     = ''magnet:?xt=urn:btih:0123456789ABCDEF0123456789abcdef01234567&tr=udp%3A%2F%2Ft.example%3A80%2Fa%20b&tr=&tr=x%26y'' \<and>
   parseMagnetUri
     (Some ''magnet:?xt=urn:btih:0123456789ABCDEF0123456789abcdef01234567&tr=udp%3A%2F%2Ft.example%3A80%2Fa%20b&tr=&tr=x%26y'') =
     Some \<lparr>infoHash = ''0123456789abcdef0123456789abcdef01234567'',
           sources = [''udp://t.example:80/a b'', ''x&y'']\<rparr> \<and>
   list_all plainTracker [''udp://t.example:80/a'', [], ''http://u.example/announce''] \<and>
   buildMagnetUri (\<lambda>t. t) ''0123456789ABCDEF0123456789abcdef01234567''
       [''udp://t.example:80/a'', [], ''http://u.example/announce'']
     = ''magnet:?xt=urn:btih:0123456789ABCDEF0123456789abcdef01234567&tr=udp://t.example:80/a&tr=&tr=http://u.example/announce'' \<and>
   parseMagnetUri
     (Some ''magnet:?xt=urn:btih:0123456789ABCDEF0123456789abcdef01234567&tr=udp://t.example:80/a&tr=&tr=http://u.example/announce'') =
     Some \<lparr>infoHash = ''0123456789abcdef0123456789abcdef01234567'',
           sources = [''udp://t.example:80/a'', ''http://u.example/announce'']\<rparr>"
proof -
  define H where "H = ''0123456789ABCDEF0123456789abcdef01234567''"
  define T where "T = [''udp://t.example:80/a b'', [], ''x&y'']"
  define P where "P = [''udp://t.example:80/a'', [], ''http://u.example/announce'']"
  have a: "\<not> startsWith ''http://example.org/x'' ''magnet:?''"
    by (simp add: startsWith_def)
  have b: "length H = 40 \<and> list_all isHexDigit H"
    unfolding H_def by (simp add: isHexDigit_def)
  have c: "buildMagnetUri encodeURIComponent H T
     = ''magnet:?xt=urn:btih:0123456789ABCDEF0123456789abcdef01234567&tr=udp%3A%2F%2Ft.example%3A80%2Fa%20b&tr=&tr=x%26y''"
    unfolding H_def T_def by code_simp
  have d: "toLowerCase H = ''0123456789abcdef0123456789abcdef01234567''"
    unfolding H_def by code_simp
  have p: "list_all plainTracker P"
    unfolding P_def by code_simp
  have c': "buildMagnetUri (\<lambda>t. t) H P
     = ''magnet:?xt=urn:btih:0123456789ABCDEF0123456789abcdef01234567&tr=udp://t.example:80/a&tr=&tr=http://u.example/announce''"
    unfolding H_def P_def by code_simp
  note t1 = parseMagnetUri_contract [of "''http://example.org/x''" "[]" H T]
  note t2 = parseMagnetUri_contract [of "[]" "[]" H P]
  have r0: "parseMagnetUri (Some ''http://example.org/x'') = None"
    using t1 a by blast
  have "parseMagnetUri (Some (buildMagnetUri encodeURIComponent H T)) =
      Some \<lparr>infoHash = toLowerCase H, sources = filter (\<lambda>t. t \<noteq> []) T\<rparr>"
    using t1 b by blast
  then have r1: "parseMagnetUri
     (Some ''magnet:?xt=urn:btih:0123456789ABCDEF0123456789abcdef01234567&tr=udp%3A%2F%2Ft.example%3A80%2Fa%20b&tr=&tr=x%26y'') =
     Some \<lparr>infoHash = ''0123456789abcdef0123456789abcdef01234567'',
           sources = [''udp://t.example:80/a b'', ''x&y'']\<rparr>"
    unfolding c d by (simp add: T_def)
  have "parseMagnetUri (Some (buildMagnetUri (\<lambda>t. t) H P)) =
      Some \<lparr>infoHash = toLowerCase H, sources = filter (\<lambda>t. t \<noteq> []) P\<rparr>"
    using t2 b p by blast
  then have r2: "parseMagnetUri
     (Some ''magnet:?xt=urn:btih:0123456789ABCDEF0123456789abcdef01234567&tr=udp://t.example:80/a&tr=&tr=http://u.example/announce'') =
     Some \<lparr>infoHash = ''0123456789abcdef0123456789abcdef01234567'',
           sources = [''udp://t.example:80/a'', ''http://u.example/announce'']\<rparr>"
    unfolding c' d by (simp add: P_def)
  show ?thesis
    using a r0 b c r1 p c' r2 unfolding H_def T_def P_def by (intro conjI) simp_all
qed

text \<open>
  The claim as the specification words it fails: a tracker that occurs twice is returned
  twice, and 41 hexadecimal digits after \<^verbatim>\<open>urn:btih:\<close> give the first 40 of them,
  not \<^verbatim>\<open>null\<close>.
\<close>

theorem parseMagnetUri_duplicates_counterexample:
  "parseMagnetUri
     (Some ''magnet:?xt=urn:btih:0123456789ABCDEF0123456789abcdef012345678&tr=a&tr=a'') =
     Some \<lparr>infoHash = ''0123456789abcdef0123456789abcdef01234567'', sources = [''a'', ''a'']\<rparr>"
  by code_simp

section \<open>Properties of the best-file selector\<close>

lemma foldl_scanFile:
  "foldl (scanFile pats) (a, b) listing =
     (foldl keepLarger a (filter hasVideoExtension listing),
      foldl keepLarger b (filter (matchesEpisode pats) (filter hasVideoExtension listing)))"
  by (induction listing arbitrary: a b) (simp_all add: scanFile_def)

lemma largestFirst_Cons_smaller:
  assumes "size_f a < size_f x"
  shows "largestFirst (a # x # xs) = largestFirst (x # xs)"
proof -
  have na: "\<not> isLargestIn (a # x # xs) a"
    using assms by (auto simp add: isLargestIn_def)
  have "isLargestIn (a # x # xs) f = isLargestIn (x # xs) f" if "f \<in> set (x # xs)" for f
    using assms that by (auto simp add: isLargestIn_def)
  then have "filter (isLargestIn (a # x # xs)) (x # xs) = filter (isLargestIn (x # xs)) (x # xs)"
    by (rule filter_cong [OF refl])
  moreover have "filter (isLargestIn (a # x # xs)) (a # x # xs) =
                 filter (isLargestIn (a # x # xs)) (x # xs)"
    using na by (simp only: filter.simps if_False)
  ultimately show ?thesis
    by (simp only: largestFirst_def)
qed

lemma largestFirst_Cons_keep:
  assumes "\<not> size_f a < size_f x"
  shows "largestFirst (a # x # xs) = largestFirst (a # xs)"
proof -
  have eq: "isLargestIn (a # x # xs) = isLargestIn (a # xs)"
    using assms by (auto simp add: isLargestIn_def fun_eq_iff)
  show ?thesis
  proof (cases "isLargestIn (a # xs) a")
    case True
    then show ?thesis by (simp add: largestFirst_def eq)
  next
    case False
    then obtain h where h: "h \<in> set xs" "size_f a < size_f h"
      by (auto simp add: isLargestIn_def)
    have "\<not> size_f h \<le> size_f x"
      using h assms by linarith
    with h(1) have "\<not> isLargestIn (a # xs) x"
      unfolding isLargestIn_def by (meson list.set_intros(2))
    with False show ?thesis by (simp add: largestFirst_def eq)
  qed
qed

lemma foldl_keepLarger_Some:
  "foldl keepLarger (Some a) xs = Some (largestFirst (a # xs))"
proof (induction xs arbitrary: a)
  case Nil
  show ?case by (simp add: largestFirst_def isLargestIn_def)
next
  case (Cons x xs)
  show ?case
  proof (cases "size_f a < size_f x")
    case True
    then show ?thesis
      using Cons.IH [of x] by (simp add: keepLarger_def largestFirst_Cons_smaller)
  next
    case False
    then show ?thesis
      using Cons.IH [of a] by (simp add: keepLarger_def largestFirst_Cons_keep)
  qed
qed

lemma foldl_keepLarger_None:
  "foldl keepLarger None xs = (if xs = [] then None else Some (largestFirst xs))"
  by (cases xs) (simp_all add: foldl_keepLarger_Some keepLarger_def)

lemma largestFirst_in_set: "fs \<noteq> [] \<Longrightarrow> largestFirst fs \<in> set fs"
proof -
  assume ne: "fs \<noteq> []"
  then have "foldl keepLarger None fs = Some (largestFirst fs)"
    by (simp add: foldl_keepLarger_None)
  moreover have "foldl keepLarger acc ys = Some r \<Longrightarrow> r \<in> set ys \<or> acc = Some r" for acc ys r
    by (induction ys arbitrary: acc) (auto simp add: keepLarger_def split: option.splits if_splits)
  ultimately show ?thesis by fastforce
qed

lemma pats_eq:
  "(case season_opt of None \<Rightarrow> None
    | Some s \<Rightarrow> (case episode_opt of None \<Rightarrow> None | Some e \<Rightarrow> Some (regexPatterns s e)))
   = sixPatterns season_opt episode_opt"
  by (simp add: sixPatterns_def split: option.splits)

lemma findBestFileIndex_select:
  "findBestFileIndex (Some listing) season_opt episode_opt = selectBestFile listing season_opt episode_opt"
proof (cases "listing = []")
  case True
  then show ?thesis by (simp add: findBestFileIndex_def selectBestFile_def)
next
  case False
  have hd0: "length listing = 1 \<Longrightarrow> listing ! 0 = hd listing"
    by (cases listing) simp_all
  show ?thesis
    using False hd0
    by (simp add: findBestFileIndex_def selectBestFile_def pats_eq foldl_scanFile
        foldl_keepLarger_None Let_def)
qed

lemma selectBestFile_index:
  "selectBestFile listing s e = Some i \<Longrightarrow> \<exists>f \<in> set listing. index f = i"
proof -
  assume a: "selectBestFile listing s e = Some i"
  let ?v = "filter hasVideoExtension listing"
  let ?m = "filter (matchesEpisode (sixPatterns s e)) ?v"
  consider (m) "?m \<noteq> []" | (v) "?m = []" "?v \<noteq> []" | (one) "?m = []" "?v = []" by blast
  then show ?thesis
  proof cases
    case m
    then have "largestFirst ?m \<in> set ?m" by (rule largestFirst_in_set)
    moreover have "i = index (largestFirst ?m)" using a m by (simp add: selectBestFile_def Let_def)
    ultimately show ?thesis by auto
  next
    case v
    then have "largestFirst ?v \<in> set ?v" using largestFirst_in_set by blast
    moreover have "i = index (largestFirst ?v)" using a v by (simp add: selectBestFile_def Let_def)
    ultimately show ?thesis by auto
  next
    case one
    then have "length listing = 1 \<and> i = index (hd listing)"
      using a by (simp add: selectBestFile_def Let_def split: if_splits)
    then show ?thesis by (cases listing) auto
  qed
qed




text \<open>
  C10. An index returned by the selector is the \<open>index\<close> field of a file of the listing.
\<close>

theorem findBestFileIndex_from_listing:
  assumes "findBestFileIndex files_opt season_opt episode_opt = Some i"
  shows "\<exists>listing. files_opt = Some listing \<and> (\<exists>f \<in> set listing. index f = i)"
proof (cases files_opt)
  case None
  then show ?thesis using assms by (simp add: findBestFileIndex_def)
next
  case (Some listing)
  then have "selectBestFile listing season_opt episode_opt = Some i"
    using assms by (simp add: findBestFileIndex_select)
  then show ?thesis using Some by (simp add: selectBestFile_index)
qed

theorem findBestFileIndex_from_listing_witness:
  "findBestFileIndex
     (Some [\<lparr>path = ''a.txt'', size_f = 10, index = 0\<rparr>,
            \<lparr>path = ''b.mp4'', size_f = 20, index = 6\<rparr>]) None None = Some 6 \<and>
   (\<exists>listing. Some [\<lparr>path = ''a.txt'', size_f = 10, index = 0\<rparr>,
                  \<lparr>path = ''b.mp4'', size_f = 20, index = 6\<rparr>] = Some listing \<and>
            (\<exists>f \<in> set listing. index f = 6))"
proof -
  have a: "findBestFileIndex
     (Some [\<lparr>path = ''a.txt'', size_f = 10, index = 0\<rparr>,
            \<lparr>path = ''b.mp4'', size_f = 20, index = 6\<rparr>]) None None = Some 6"
    by code_simp
  show ?thesis
    using a findBestFileIndex_from_listing [OF a] by blast
qed

section \<open>Properties of the query builder\<close>

lemma string_of_nat_length: "10 \<le> n \<Longrightarrow> 2 \<le> length (string_of_nat n)"
  by (subst string_of_nat.simps) (simp add: string_of_nat.simps [of "n div 10"])

lemma string_of_nat_digit: "n < 10 \<Longrightarrow> length (string_of_nat n) = 1"
  by (simp add: string_of_nat.simps [of n])

lemma padStart2_small:
  "0 \<le> n \<Longrightarrow> n < 10 \<Longrightarrow> padStart2 (string_of_int n) = CHR ''0'' # string_of_int n"
  by (simp add: padStart2_def string_of_int_def string_of_nat_digit)

lemma padStart2_large: "10 \<le> n \<Longrightarrow> padStart2 (string_of_int n) = string_of_int n"
  using string_of_nat_length [of "nat n"] by (simp add: padStart2_def string_of_int_def)

lemma fetch_first_query:
  assumes "truthy (tmdbApiKey config)"
    and "getTmdbDetails (imdbId parsedId) (the (tmdbApiKey config)) Series = Some d"
    and "searchType parsedId = Series" "season parsedId = Some s" "episode parsedId = Some e"
  shows "fetchAndSearchTorrents parsedId config getTmdbDetails bitmagnetSearch =
    (let baseQuery = baseQueryOf (title_d d) (year_d d);
         q1 = baseQuery @ '' S'' @ padStart2 (string_of_int s) @ ''E'' @ padStart2 (string_of_int e);
         q2 = baseQuery @ '' S'' @ padStart2 (string_of_int s)
     in case bitmagnetSearch q1 Series of
          Inl err \<Rightarrow> \<lparr>queries = [q1], outcome = Inl err\<rparr>
        | Inr rs \<Rightarrow>
            if rs = [] \<and> title_d d \<noteq> [] then
              (case bitmagnetSearch q2 Series of
                 Inl err \<Rightarrow> \<lparr>queries = [q1, q2], outcome = Inl err\<rparr>
               | Inr rs2 \<Rightarrow>
                   \<lparr>queries = [q1, q2],
                    outcome = Inr (if rs2 = [] then None
                                   else Some \<lparr>torrents = rs2, title_r = Some (title_d d)\<rparr>)\<rparr>)
            else \<lparr>queries = [q1],
                  outcome = Inr (if rs = [] then None
                                 else Some \<lparr>torrents = rs, title_r = Some (title_d d)\<rparr>)\<rparr>)"
  using assms
  by (simp add: fetchAndSearchTorrents_def Let_def truthy_def split: sum.splits)

text \<open>
  C8, as the code has it. When the title lookup succeeds for a series request that has
  both season and episode, the first search string is the base query, a space, \<open>S\<close> with
  the season and, directly after it, \<open>E\<close> with the episode, each number padded with zeros
  to two digits; the base query is the title, followed by a space and the year when a
  year is there. When that search returns no candidate (and the title is not empty) the
  backend is queried exactly once more, with the base query, a space, and \<open>S\<close> with the
  season, and that second result is final, also when it is empty.
\<close>

theorem fetchAndSearchTorrents_queries:
  assumes "truthy (tmdbApiKey config)"
    and "getTmdbDetails (imdbId parsedId) (the (tmdbApiKey config)) Series = Some d"
    and "title_d d \<noteq> []"
    and "searchType parsedId = Series" "season parsedId = Some s" "episode parsedId = Some e"
  shows "let baseQuery = baseQueryOf (title_d d) (year_d d);
             q1 = baseQuery @ '' S'' @ padStart2 (string_of_int s) @
                    ''E'' @ padStart2 (string_of_int e);
             q2 = baseQuery @ '' S'' @ padStart2 (string_of_int s);
             run = fetchAndSearchTorrents parsedId config getTmdbDetails bitmagnetSearch
         in hd (queries run) = q1 \<and>
            (bitmagnetSearch q1 Series = Inr [] \<longrightarrow>
               queries run = [q1, q2] \<and>
               outcome run =
                 (case bitmagnetSearch q2 Series of
                    Inl err \<Rightarrow> Inl err
                  | Inr rs \<Rightarrow>
                      Inr (if rs = [] then None
                           else Some \<lparr>torrents = rs, title_r = Some (title_d d)\<rparr>))) \<and>
            (bitmagnetSearch q1 Series \<noteq> Inr [] \<longrightarrow> queries run = [q1]) \<and>
            (year_d d = None \<longrightarrow> baseQuery = title_d d) \<and>
            (\<forall>y. year_d d = Some y \<and> y \<noteq> 0 \<longrightarrow>
                 baseQuery = title_d d @ '' '' @ string_of_int y) \<and>
            (\<forall>n. 0 \<le> n \<and> n < 10 \<longrightarrow> padStart2 (string_of_int n) = CHR ''0'' # string_of_int n) \<and>
            (\<forall>n. 10 \<le> n \<longrightarrow> padStart2 (string_of_int n) = string_of_int n)"
proof -
  note run = fetch_first_query
    [of config getTmdbDetails parsedId d s e bitmagnetSearch, OF assms(1,2,4,5,6)]
  show ?thesis
    unfolding run Let_def
    using assms(3)
    by (auto simp add: baseQueryOf_def padStart2_small padStart2_large split: sum.splits)
qed

theorem fetchAndSearchTorrents_queries_witness:
  "fetchAndSearchTorrents
     \<lparr>imdbId = ''tt0111161'', season = Some 1, episode = Some 5, searchType = Series\<rparr>
     \<lparr>bitmagnetUrl = ''http://bitmagnet'', tmdbApiKey = Some ''key'', premiumizeApiKey = None,
      bitmagnetTimeout = 30, bitmagnetSortField = ''seeders'',
      bitmagnetSortDescending = True, bitmagnetSearchLimit = 20\<rparr>
     (\<lambda>i k t. Some \<lparr>title_d = ''X'', year_d = Some 2020\<rparr>)
     (\<lambda>q t. Inr []) =
   \<lparr>queries = [''X 2020 S01E05'', ''X 2020 S01''], outcome = Inr None\<rparr>"
proof -
  let ?config = "\<lparr>bitmagnetUrl = ''http://bitmagnet'', tmdbApiKey = Some ''key'',
      premiumizeApiKey = None, bitmagnetTimeout = 30, bitmagnetSortField = ''seeders'',
      bitmagnetSortDescending = True, bitmagnetSearchLimit = 20\<rparr>"
  let ?id = "\<lparr>imdbId = ''tt0111161'', season = Some 1, episode = Some 5,
      searchType = Series\<rparr>"
  let ?tmdb = "\<lambda>(i::string) (k::string) (t::SearchType).
      Some \<lparr>title_d = ''X'', year_d = Some 2020\<rparr>"
  let ?search = "\<lambda>(q::string) (t::SearchType). (Inr [] :: error + TorrentInfo list)"
  have "truthy (tmdbApiKey ?config)"
    by (simp add: truthy_def)
  from fetchAndSearchTorrents_queries [of ?config ?tmdb ?id _ 1 5 ?search, OF this]
  have "queries (fetchAndSearchTorrents ?id ?config ?tmdb ?search) =
          [''X 2020 S01E05'', ''X 2020 S01''] \<and>
        outcome (fetchAndSearchTorrents ?id ?config ?tmdb ?search) = Inr None"
    by (simp add: Let_def baseQueryOf_def padStart2_def string_of_int_def
        string_of_nat.simps)
  then show ?thesis
    by (cases "fetchAndSearchTorrents ?id ?config ?tmdb ?search") simp
qed

text \<open>
  The claim as the specification words it fails: no space stands between the season and
  the episode of the first search string.
\<close>

theorem fetchAndSearchTorrents_query_counterexample:
  "queries (fetchAndSearchTorrents
     \<lparr>imdbId = ''tt0111161'', season = Some 1, episode = Some 5, searchType = Series\<rparr>
     \<lparr>bitmagnetUrl = ''http://bitmagnet'', tmdbApiKey = Some ''key'', premiumizeApiKey = None,
      bitmagnetTimeout = 30, bitmagnetSortField = ''seeders'',
      bitmagnetSortDescending = True, bitmagnetSearchLimit = 20\<rparr>
     (tmdbFinds \<lparr>title_d = ''X'', year_d = Some 2020\<rparr>)
     (searchReturns [])) = [''X 2020 S01E05'', ''X 2020 S01''] \<and>
   ''X 2020 S01E05'' \<noteq> ''X 2020 S01 E05''"
  by (simp add: fetchAndSearchTorrents_def truthy_def baseQueryOf_def padStart2_def
      string_of_int_def string_of_nat.simps tmdbFinds_def searchReturns_def)

section \<open>Properties of the stream creation\<close>

lemma map_set_keys: "map fst (map_set m k v) = set_add (map fst m) k"
proof (induction m)
  case Nil
  show ?case by (simp add: set_add_def)
next
  case (Cons a m)
  show ?case
  proof (cases "fst a = k")
    case True
    then show ?thesis by (cases a) (simp add: set_add_def)
  next
    case False
    then show ?thesis using Cons.IH by (cases a) (simp add: set_add_def)
  qed
qed

lemma set_add_distinct: "distinct s \<Longrightarrow> distinct (set_add s x)"
  by (simp add: set_add_def)

lemma new_Map_snoc: "new_Map (es @ [e]) = map_set (new_Map es) (fst e) (snd e)"
  by (simp add: new_Map_def)

lemma new_Set_snoc: "new_Set (xs @ [x]) = set_add (new_Set xs) x"
  by (simp add: new_Set_def)

lemma new_Set_distinct: "distinct (new_Set xs)"
  by (induction xs rule: rev_induct) (simp_all add: new_Set_snoc set_add_distinct, simp add: new_Set_def)

lemma new_Set_set: "set (new_Set xs) = set xs"
  by (induction xs rule: rev_induct) (auto simp add: new_Set_snoc set_add_def new_Set_def)

lemma new_Map_keys: "map fst (new_Map es) = new_Set (map fst es)"
  by (induction es rule: rev_induct)
    (simp_all add: new_Map_snoc new_Set_snoc map_set_keys, simp add: new_Map_def new_Set_def)

lemma map_set_entries: "set (map_set m k v) \<subseteq> insert (k, v) (set m)"
  by (induction m) (auto split: if_splits)

lemma new_Map_entries: "set (new_Map es) \<subseteq> set es"
proof (induction es rule: rev_induct)
  case Nil
  show ?case by (simp add: new_Map_def)
next
  case (snoc e es)
  have "set (new_Map (es @ [e])) \<subseteq> insert (fst e, snd e) (set (new_Map es))"
    unfolding new_Map_snoc by (rule map_set_entries)
  with snoc show ?case by auto
qed

lemma map_set_filter_same:
  assumes "distinct (map fst m)" "\<forall>kv \<in> set m. fst kv = f (snd kv)" "f v = k"
  shows "filter (\<lambda>s. f s = k) (map snd (map_set m k v)) = [v]"
  using assms
proof (induction m)
  case Nil
  then show ?case by simp
next
  case (Cons a m)
  show ?case
  proof (cases "fst a = k")
    case True
    have "\<forall>kv \<in> set m. f (snd kv) \<noteq> k"
      using Cons.prems True by (metis distinct.simps(2) image_eqI list.set_intros(2) list.simps(9) set_map)
    then have "filter (\<lambda>s. f s = k) (map snd m) = []"
      by (simp add: filter_empty_conv)
    then show ?thesis
      using True Cons.prems(3) by (cases a) simp
  next
    case False
    then have "f (snd a) \<noteq> k" using Cons.prems(2) by auto
    moreover have "filter (\<lambda>s. f s = k) (map snd (map_set m k v)) = [v]"
      using Cons.IH Cons.prems by simp
    ultimately show ?thesis
      using False by (cases a) simp
  qed
qed

lemma map_set_filter_other:
  assumes "\<forall>kv \<in> set m. fst kv = f (snd kv)" "f v = k'" "k \<noteq> k'"
  shows "filter (\<lambda>s. f s = k) (map snd (map_set m k' v)) = filter (\<lambda>s. f s = k) (map snd m)"
  using assms
proof (induction m)
  case Nil
  then show ?case by simp
next
  case (Cons a m)
  then show ?case by (cases a) auto
qed

lemma keyed_entries:
  "\<forall>kv \<in> set (new_Map (map (\<lambda>s. (f s, s)) xs)). fst kv = f (snd kv) \<and> snd kv \<in> set xs"
  using new_Map_entries [of "map (\<lambda>s. (f s, s)) xs"] by auto

lemma keyed_distinct: "distinct (map fst (new_Map es))"
  by (simp add: new_Map_keys new_Set_distinct)

lemma dedup_keys:
  "map f (map_values (new_Map (map (\<lambda>s. (f s, s)) xs))) = new_Set (map f xs)"
proof -
  have "map f (map snd (new_Map (map (\<lambda>s. (f s, s)) xs))) =
        map fst (new_Map (map (\<lambda>s. (f s, s)) xs))"
    using keyed_entries [of f xs] by simp
  also have "\<dots> = new_Set (map f xs)"
    by (simp add: new_Map_keys comp_def)
  finally show ?thesis by (simp add: map_values_def)
qed

lemma dedup_subset: "set (map_values (new_Map (map (\<lambda>s. (f s, s)) xs))) \<subseteq> set xs"
  using keyed_entries [of f xs] by (auto simp add: map_values_def)

lemma dedup_filter:
  assumes "k \<in> f ` set xs"
  shows "filter (\<lambda>s. f s = k) (map_values (new_Map (map (\<lambda>s. (f s, s)) xs))) =
           [last (filter (\<lambda>s. f s = k) xs)]"
  using assms
proof (induction xs rule: rev_induct)
  case Nil
  then show ?case by simp
next
  case (snoc x xs)
  let ?M = "new_Map (map (\<lambda>s. (f s, s)) xs)"
  have inv: "\<forall>kv \<in> set ?M. fst kv = f (snd kv)"
    using keyed_entries [of f xs] by blast
  show ?case
  proof (cases "f x = k")
    case True
    have "filter (\<lambda>s. f s = k) (map snd (map_set ?M k x)) = [x]"
      using keyed_distinct inv True by (rule map_set_filter_same)
    then show ?thesis
      using True by (simp add: new_Map_snoc map_values_def)
  next
    case False
    then have kin: "k \<in> f ` set xs" using snoc.prems by auto
    have "filter (\<lambda>s. f s = k) (map snd (map_set ?M (f x) x)) =
          filter (\<lambda>s. f s = k) (map snd ?M)"
      using inv refl False [symmetric] by (rule map_set_filter_other)
    moreover have "filter (\<lambda>s. f s = k) xs \<noteq> []"
      using kin by (auto simp add: filter_empty_conv)
    ultimately show ?thesis
      using snoc.IH [OF kin] False by (simp add: new_Map_snoc map_values_def)
  qed
qed

lemma foldl_initial:
  "foldl (\<lambda>results hash. results(hash \<mapsto> notCached)) m hs =
     (\<lambda>k. if k \<in> set hs then Some notCached else m k)"
  by (induction hs arbitrary: m) (auto simp add: fun_eq_iff)

lemma initialResults_apply:
  "initialResults hs h = (if h \<in> set hs then Some notCached else None)"
  by (simp add: initialResults_def foldl_initial)

lemma checkPremiumizeCacheBulk_failed:
  assumes "bulkFailed hs fetched"
  shows "checkPremiumizeCacheBulk apiKey hs fetched h = None \<or>
         checkPremiumizeCacheBulk apiKey hs fetched h = Some notCached"
proof (cases "hs = []")
  case True
  then show ?thesis by (simp add: checkPremiumizeCacheBulk_def)
next
  case False
  have "checkPremiumizeCacheBulk apiKey hs fetched = initialResults hs"
    using assms False
    by (auto simp add: checkPremiumizeCacheBulk_def bulkTry_def bulkFailed_def
        split: BulkFetch.splits option.splits sum.splits)
  then show ?thesis by (simp add: initialResults_apply)
qed

lemma premiumizeResultsMap_failed:
  assumes "bulkFailed (infoHashesToCheck searchResults) fetched"
  shows "premiumizeResultsMap config searchResults fetched h = None \<or>
         premiumizeResultsMap config searchResults fetched h = Some notCached"
  using checkPremiumizeCacheBulk_failed [OF assms]
  by (simp add: premiumizeResultsMap_def)

lemma isCandidate_failed:
  assumes "bulkFailed (infoHashesToCheck searchResults) fetched"
  shows "\<not> isCandidate config (premiumizeResultsMap config searchResults fetched) t"
  using premiumizeResultsMap_failed [OF assms, of config "the (infoHashOf t)"]
  by (auto simp add: isCandidate_def notCached_def)

lemma foldl_firstLoop:
  "foldl (\<lambda>acc torrent.
              if isCandidate config m torrent
              then (fst acc @ [(torrent, the (m (the (infoHashOf torrent))))], snd acc)
              else (fst acc, snd acc @ [torrent])) (a, b) ts =
     (a @ map (\<lambda>t. (t, the (m (the (infoHashOf t))))) (filter (isCandidate config m) ts),
      b @ filter (\<lambda>t. \<not> isCandidate config m t) ts)"
  by (induction ts arbitrary: a b) simp_all

lemma firstLoop_eq:
  "firstLoop config m ts =
     (map (\<lambda>t. (t, the (m (the (infoHashOf t))))) (filter (isCandidate config m) ts),
      filter (\<lambda>t. \<not> isCandidate config m t) ts)"
  by (simp add: firstLoop_def foldl_firstLoop)

lemma reconcile_failed:
  assumes "bulkFailed (infoHashesToCheck searchResults) fetched"
  shows "reconcile logIndex searchResults parsedId tmdbTitle config fetched getDirectLink finishTime =
           \<lparr>premiumizeCandidates = [], fallbackTorrents = searchResults, premiumizeStreams = []\<rparr>"
  using isCandidate_failed [OF assms]
  by (simp add: reconcile_def firstLoop_eq Let_def)

lemma toLowerCase_length: "length (toLowerCase s) = length s"
  by (simp add: toLowerCase_def)

lemma parseMagnetUri_Some:
  assumes "parseMagnetUri m = Some r"
  shows "length (infoHash r) = 40 \<and> truthy m"
proof -
  obtain u where m: "m = Some u" using assms by (cases m) (simp_all add: parseMagnetUri_def)
  have u: "u \<noteq> []" "startsWith u ''magnet:?''"
    using assms unfolding m by (auto simp add: parseMagnetUri_def split: if_splits)
  from assms obtain xt h where "match_btih xt = Some h" "infoHash r = toLowerCase h"
    unfolding m parseMagnetUri_result [OF u(2)]
    by (auto split: option.splits)
  then have "length (infoHash r) = 40"
    using match_btih_Some [of xt h] by (simp add: toLowerCase_length)
  then show ?thesis using u(1) by (simp add: m truthy_def)
qed

lemma infoHashOf_Some:
  assumes "infoHashOf t = Some h"
  shows "length h = 40" "truthy (magnetUrl t)" "h \<noteq> []"
  using assms parseMagnetUri_Some [of "magnetUrl t"]
  by (auto simp add: infoHashOf_def)

lemma join_nonempty: "p \<noteq> [] \<Longrightarrow> join sep (p # ps) \<noteq> []"
  by (cases ps) simp_all

lemma fallbackStream_Some:
  assumes "fallbackStream logIndex trackers parsedId t = Some s"
  shows "name_s s = ''[TORRENT] FW Bitmagnet''" "url s = None" "title_s s \<noteq> []"
    "infoHash_s s = infoHashOf t"
proof -
  show "name_s s = ''[TORRENT] FW Bitmagnet''" "url s = None" "title_s s \<noteq> []"
    using assms by (auto simp add: fallbackStream_def Let_def split: if_splits)
  show "infoHash_s s = infoHashOf t"
  proof (cases "infoHashOf t")
    case None
    then have "parseMagnetUri (magnetUrl t) = None" by (simp add: infoHashOf_def)
    then show ?thesis
      using assms None by (auto simp add: fallbackStream_def Let_def truthy_def split: if_splits)
  next
    case (Some h)
    note hs = infoHashOf_Some [OF Some]
    obtain pm where pm: "parseMagnetUri (magnetUrl t) = Some pm" "infoHash pm = h"
      using Some by (auto simp add: infoHashOf_def)
    show ?thesis
      using assms Some hs pm
      by (auto simp add: fallbackStream_def Let_def truthy_def split: if_splits)
  qed
qed

lemma fallbackStream_defined:
  assumes "infoHashOf t = Some h"
  shows "\<exists>s. fallbackStream logIndex trackers parsedId t = Some s"
proof -
  note hs = infoHashOf_Some [OF assms]
  obtain pm where pm: "parseMagnetUri (magnetUrl t) = Some pm" "infoHash pm = h"
    using assms by (auto simp add: infoHashOf_def)
  show ?thesis
    using hs pm by (simp add: fallbackStream_def Let_def truthy_def)
qed

lemma fallbackStreamsOf_origin:
  assumes "s \<in> set (fallbackStreamsOf logIndex trackers parsedId ts)"
  obtains t where "t \<in> set ts" "fallbackStream logIndex trackers parsedId t = Some s"
  using assms by (auto simp add: fallbackStreamsOf_def)

lemma fallbackStreamsOf_member:
  assumes "fallbackStream logIndex trackers parsedId t = Some s" "t \<in> set ts"
  shows "s \<in> set (fallbackStreamsOf logIndex trackers parsedId ts)"
proof -
  have "Some s \<in> set (filter (\<lambda>s. s \<noteq> None) (map (fallbackStream logIndex trackers parsedId) ts))"
    using assms by force
  then have "the (Some s) \<in> the ` set (filter (\<lambda>s. s \<noteq> None)
                (map (fallbackStream logIndex trackers parsedId) ts))"
    by (rule imageI)
  then show ?thesis
    unfolding fallbackStreamsOf_def by simp
qed

text \<open>
  C1. When the bulk cache-status lookup fails entirely, the reconciliation ends with no
  candidate for a direct link, no direct stream and every search result in the fallback
  list; no stream of the output has a \<open>url\<close>, and every search result with a parseable
  info hash is represented in the output by a torrent stream with its info hash. The
  failure is absorbed inside \<open>checkPremiumizeCacheBulk\<close>: its result holds no cached entry.
\<close>

theorem bulk_failure_all_fallback:
  assumes "\<forall>t \<in> set searchResults. infoHashOf t \<noteq> None"
    and "bulkFailed (infoHashesToCheck searchResults) fetched"
  shows "let r = reconcile logIndex searchResults parsedId tmdbTitle config fetched getDirectLink
                   finishTime;
             out = createStreamsFromTorrents logIndex searchResults parsedId tmdbTitle config
                     additionalTrackers fetched getDirectLink finishTime
         in premiumizeCandidates r = [] \<and> premiumizeStreams r = [] \<and>
            fallbackTorrents r = searchResults \<and>
            (\<forall>s \<in> set out. url s = None \<and> name_s s = ''[TORRENT] FW Bitmagnet'') \<and>
            (\<forall>t \<in> set searchResults. \<exists>s \<in> set out. infoHash_s s = infoHashOf t) \<and>
            (\<forall>h. premiumizeResultsMap config searchResults fetched h = None \<or>
                 premiumizeResultsMap config searchResults fetched h = Some notCached)"
proof -
  define fs where "fs = fallbackStreamsOf logIndex additionalTrackers parsedId searchResults"
  define out where "out = createStreamsFromTorrents logIndex searchResults parsedId tmdbTitle config
                     additionalTrackers fetched getDirectLink finishTime"
  note r = reconcile_failed
    [OF assms(2), of logIndex parsedId tmdbTitle config getDirectLink finishTime]
  have out: "out = filter validStream (uniqueFallbackStreams fs)"
    by (simp add: out_def createStreamsFromTorrents_def r fs_def Let_def)
  have sub: "set (uniqueFallbackStreams fs) \<subseteq> set fs"
    unfolding uniqueFallbackStreams_def by (rule dedup_subset)
  have torrent: "url s = None \<and> name_s s = ''[TORRENT] FW Bitmagnet''" if "s \<in> set out" for s
  proof -
    from that sub have "s \<in> set fs" unfolding out by auto
    then obtain t where "fallbackStream logIndex additionalTrackers parsedId t = Some s"
      unfolding fs_def by (rule fallbackStreamsOf_origin)
    then show ?thesis by (simp add: fallbackStream_Some)
  qed
  have present: "\<exists>s \<in> set out. infoHash_s s = infoHashOf t" if "t \<in> set searchResults" for t
  proof -
    from that assms(1) obtain h where h: "infoHashOf t = Some h" by auto
    from fallbackStream_defined [OF h] obtain s0 where
      s0: "fallbackStream logIndex additionalTrackers parsedId t = Some s0" by blast
    then have "s0 \<in> set fs"
      unfolding fs_def using that by (rule fallbackStreamsOf_member)
    moreover have "infoHash_s s0 = Some h"
      using fallbackStream_Some(4) [OF s0] h by simp
    ultimately have "Some h \<in> infoHash_s ` set fs" by force
    from dedup_filter [OF this]
    have "filter (\<lambda>s. infoHash_s s = Some h) (uniqueFallbackStreams fs) \<noteq> []"
      by (simp add: uniqueFallbackStreams_def)
    then obtain s where s: "s \<in> set (uniqueFallbackStreams fs)" "infoHash_s s = Some h"
      by (auto simp add: filter_empty_conv)
    then have "s \<in> set fs" using sub by auto
    then obtain t' where "fallbackStream logIndex additionalTrackers parsedId t' = Some s"
      unfolding fs_def by (rule fallbackStreamsOf_origin)
    then have "name_s s = ''[TORRENT] FW Bitmagnet''" "title_s s \<noteq> []"
      by (simp_all add: fallbackStream_Some)
    moreover have "h \<noteq> []" using infoHashOf_Some(3) [OF h] .
    ultimately have "validStream s"
      using s(2) by (simp add: validStream_def truthy_def)
    then have "s \<in> set out" using s(1) by (simp add: out)
    then show ?thesis using s(2) h by auto
  qed
  show ?thesis
    unfolding Let_def out_def [symmetric] r
    using torrent present premiumizeResultsMap_failed [OF assms(2), of config]
    by simp
qed

theorem bulk_failure_all_fallback_witness:
  "let mk = (\<lambda>t m. \<lparr>title = t, magnetUrl = Some m, size_t = Some 1000, resolution = ''1080p'',
                      seeders = 20, peers = 5, videoCodec = None, videoSource = None,
                      languages = [''en''], files = None\<rparr>);
       ts = [mk ''A'' ''magnet:?xt=urn:btih:aaaaaaaaaaaaaaaaaaaaaaaaaaaaaaaaaaaaaaaa'',
             mk ''B'' ''magnet:?xt=urn:btih:bbbbbbbbbbbbbbbbbbbbbbbbbbbbbbbbbbbbbbbb'',
             mk ''C'' ''magnet:?xt=urn:btih:cccccccccccccccccccccccccccccccccccccccc''];
       config = \<lparr>bitmagnetUrl = ''http://bitmagnet'', tmdbApiKey = None,
                 premiumizeApiKey = Some ''key'', bitmagnetTimeout = 30,
                 bitmagnetSortField = ''seeders'', bitmagnetSortDescending = True,
                 bitmagnetSearchLimit = 20\<rparr>;
       parsedId = \<lparr>imdbId = ''tt0111161'', season = None, episode = None, searchType = Movie\<rparr>;
       r = reconcile exactLogIndex ts parsedId None config NetworkError (\<lambda>k m q. Some ''http://dl'') (\<lambda>i. 0);
       out = createStreamsFromTorrents exactLogIndex ts parsedId None config [] NetworkError
               (\<lambda>k m q. Some ''http://dl'') (\<lambda>i. 0)
   in (\<forall>t \<in> set ts. infoHashOf t \<noteq> None) \<and>
      bulkFailed (infoHashesToCheck ts) NetworkError \<and>
      premiumizeCandidates r = [] \<and> premiumizeStreams r = [] \<and> fallbackTorrents r = ts \<and>
      (\<forall>s \<in> set out. url s = None) \<and>
      (\<forall>t \<in> set ts. \<exists>s \<in> set out. infoHash_s s = infoHashOf t)"
proof -
  define mk where "mk = (\<lambda>t m. \<lparr>title = t, magnetUrl = Some m, size_t = Some 1000,
                      resolution = ''1080p'', seeders = 20, peers = 5, videoCodec = None,
                      videoSource = None, languages = [''en''], files = None\<rparr>)"
  define ts where
    "ts = [mk ''A'' ''magnet:?xt=urn:btih:aaaaaaaaaaaaaaaaaaaaaaaaaaaaaaaaaaaaaaaa'',
           mk ''B'' ''magnet:?xt=urn:btih:bbbbbbbbbbbbbbbbbbbbbbbbbbbbbbbbbbbbbbbb'',
           mk ''C'' ''magnet:?xt=urn:btih:cccccccccccccccccccccccccccccccccccccccc'']"
  have p1: "parseMagnetUri (Some ''magnet:?xt=urn:btih:aaaaaaaaaaaaaaaaaaaaaaaaaaaaaaaaaaaaaaaa'')
              \<noteq> None"
    by code_simp
  have p2: "parseMagnetUri (Some ''magnet:?xt=urn:btih:bbbbbbbbbbbbbbbbbbbbbbbbbbbbbbbbbbbbbbbb'')
              \<noteq> None"
    by code_simp
  have p3: "parseMagnetUri (Some ''magnet:?xt=urn:btih:cccccccccccccccccccccccccccccccccccccccc'')
              \<noteq> None"
    by code_simp
  have h1: "\<forall>t \<in> set ts. infoHashOf t \<noteq> None"
    using p1 p2 p3 by (simp add: ts_def mk_def infoHashOf_def)
  have h2: "bulkFailed (infoHashesToCheck ts) NetworkError"
    by (simp add: bulkFailed_def)
  show ?thesis
    unfolding Let_def mk_def [symmetric] ts_def [symmetric]
    using h1 h2 bulk_failure_all_fallback [OF h1 h2]
    by (simp add: Let_def)
qed

lemma processPremiumizeCandidate_Some:
  assumes "processPremiumizeCandidate logIndex getDirectLink config torrent cacheStatus parsedId tmdbTitle
             = Some s"
  shows "truthy (url s)" "infoHash_s s = None" "name_s s = ''[PM] FW Bitmagnet''"
  using assms
  by (auto simp add: processPremiumizeCandidate_def Let_def split: option.splits if_splits)

lemma premiumizeStreams_member:
  assumes "s \<in> set (premiumizeStreams
             (reconcile logIndex searchResults parsedId tmdbTitle config fetched getDirectLink finishTime))"
  shows "truthy (url s)" "infoHash_s s = None"
proof -
  from assms obtain c where
    "processPremiumizeCandidate logIndex getDirectLink config (fst c) (snd c) parsedId tmdbTitle = Some s"
    by (auto simp add: reconcile_def Let_def)
  then show "truthy (url s)" "infoHash_s s = None"
    by (simp_all add: processPremiumizeCandidate_Some)
qed

lemma fallbackStreamsOf_valid:
  assumes "s \<in> set (fallbackStreamsOf logIndex trackers parsedId ts)"
  shows "url s = None" "validStream s \<longleftrightarrow> infoHash_s s \<noteq> None"
    "name_s s = ''[TORRENT] FW Bitmagnet''" "title_s s \<noteq> []"
    "infoHash_s s = Some h \<Longrightarrow> h \<noteq> []"
proof -
  from assms obtain t where t: "fallbackStream logIndex trackers parsedId t = Some s"
    by (rule fallbackStreamsOf_origin)
  note p = fallbackStream_Some [OF t]
  show "url s = None" "name_s s = ''[TORRENT] FW Bitmagnet''" "title_s s \<noteq> []"
    using p by simp_all
  show nonempty: "h \<noteq> []" if "infoHash_s s = Some h" for h
    using that p(4) infoHashOf_Some(3) [of t h] by simp
  show "validStream s \<longleftrightarrow> infoHash_s s \<noteq> None"
  proof (cases "infoHash_s s")
    case None
    then show ?thesis using p(2) by (simp add: validStream_def truthy_def)
  next
    case (Some h)
    then show ?thesis using p(1,3) nonempty [OF Some] by (simp add: validStream_def truthy_def)
  qed
qed

lemma createStreams_split:
  "createStreamsFromTorrents logIndex searchResults parsedId tmdbTitle config additionalTrackers fetched
     getDirectLink finishTime =
   premiumizeStreams
     (reconcile logIndex searchResults parsedId tmdbTitle config fetched getDirectLink finishTime) @
   filter validStream
     (uniqueFallbackStreams
        (fallbackStreamsOf logIndex additionalTrackers parsedId
           (fallbackTorrents
              (reconcile logIndex searchResults parsedId tmdbTitle config fetched getDirectLink
                 finishTime))))"
proof -
  have "filter validStream (premiumizeStreams
     (reconcile logIndex searchResults parsedId tmdbTitle config fetched getDirectLink finishTime)) =
     premiumizeStreams
     (reconcile logIndex searchResults parsedId tmdbTitle config fetched getDirectLink finishTime)"
    using premiumizeStreams_member(1) by (intro filter_True) (auto simp add: validStream_def)
  then show ?thesis
    by (simp add: createStreamsFromTorrents_def Let_def)
qed

lemma unique_torrent_part:
  fixes fs :: "Stream list"
  assumes "fs = fallbackStreamsOf logIndex trackers parsedId ts"
  shows "map infoHash_s (filter validStream (uniqueFallbackStreams fs)) =
           filter (\<lambda>k. k \<noteq> None) (new_Set (map infoHash_s fs))"
proof -
  have sub: "set (uniqueFallbackStreams fs) \<subseteq> set fs"
    unfolding uniqueFallbackStreams_def by (rule dedup_subset)
  have "filter validStream (uniqueFallbackStreams fs) =
        filter (\<lambda>s. infoHash_s s \<noteq> None) (uniqueFallbackStreams fs)"
    using sub fallbackStreamsOf_valid(2) unfolding assms by (intro filter_cong) auto
  then have "map infoHash_s (filter validStream (uniqueFallbackStreams fs)) =
        filter (\<lambda>k. k \<noteq> None) (map infoHash_s (uniqueFallbackStreams fs))"
    by (simp add: filter_map comp_def)
  also have "map infoHash_s (uniqueFallbackStreams fs) = new_Set (map infoHash_s fs)"
    unfolding uniqueFallbackStreams_def by (rule dedup_keys)
  finally show ?thesis .
qed

lemma filter_singleton:
  assumes "filter P xs = [x]"
  shows "x \<in> set xs" "P x"
proof -
  have "x \<in> set (filter P xs)" by (simp add: assms)
  then show "x \<in> set xs" "P x" by simp_all
qed

lemma filter_commute: "filter P (filter Q xs) = filter Q (filter P xs)"
  by (induction xs) simp_all

lemma truthy_not_None: "truthy x \<Longrightarrow> x \<noteq> None"
  by (cases x) (simp_all add: truthy_def)

text \<open>
  C3, as the code has it. Let \<open>fs\<close> be the fallback streams built from the fallback list.
  For every info hash carried by some stream of \<open>fs\<close>, exactly one torrent stream of the
  output has that info hash, and it is the last stream of \<open>fs\<close> with that info hash;
  the info hashes of the torrent streams of the output are distinct and stand in the
  order of their first occurrence in \<open>fs\<close>.
\<close>

theorem dedup_one_stream_per_infoHash:
  assumes "s0 \<in> set (fallbackStreamsOf logIndex additionalTrackers parsedId
             (fallbackTorrents (reconcile logIndex searchResults parsedId tmdbTitle config fetched
                                  getDirectLink finishTime)))"
    and "infoHash_s s0 = Some h"
  shows "let fs = fallbackStreamsOf logIndex additionalTrackers parsedId
                    (fallbackTorrents (reconcile logIndex searchResults parsedId tmdbTitle config fetched
                                         getDirectLink finishTime));
             out = createStreamsFromTorrents logIndex searchResults parsedId tmdbTitle config
                     additionalTrackers fetched getDirectLink finishTime
         in filter (\<lambda>s. infoHash_s s = Some h) out =
              [last (filter (\<lambda>s. infoHash_s s = Some h) fs)] \<and>
            map infoHash_s (filter (\<lambda>s. url s = None) out) =
              filter (\<lambda>k. k \<noteq> None) (new_Set (map infoHash_s fs)) \<and>
            distinct (map infoHash_s (filter (\<lambda>s. url s = None) out))"
proof -
  define r where "r = reconcile logIndex searchResults parsedId tmdbTitle config fetched
                        getDirectLink finishTime"
  define fs where "fs = fallbackStreamsOf logIndex additionalTrackers parsedId (fallbackTorrents r)"
  define out where "out = createStreamsFromTorrents logIndex searchResults parsedId tmdbTitle config
                     additionalTrackers fetched getDirectLink finishTime"
  define T where "T = filter validStream (uniqueFallbackStreams fs)"
  have out: "out = premiumizeStreams r @ T"
    unfolding out_def T_def fs_def r_def by (rule createStreams_split)
  have pm: "truthy (url s) \<and> infoHash_s s = None" if "s \<in> set (premiumizeStreams r)" for s
    using that premiumizeStreams_member unfolding r_def by blast
  have sub: "set (uniqueFallbackStreams fs) \<subseteq> set fs"
    unfolding uniqueFallbackStreams_def by (rule dedup_subset)
  have Tnone: "url s = None" if "s \<in> set T" for s
    using that sub fallbackStreamsOf_valid(1) unfolding T_def fs_def by auto
  have pm_h: "filter (\<lambda>s. infoHash_s s = Some h) (premiumizeStreams r) = []"
    using pm by (auto simp add: filter_empty_conv)
  have "Some h \<in> infoHash_s ` set fs"
    using assms unfolding fs_def r_def by force
  from dedup_filter [OF this]
  have one: "filter (\<lambda>s. infoHash_s s = Some h) (uniqueFallbackStreams fs) =
               [last (filter (\<lambda>s. infoHash_s s = Some h) fs)]"
    by (simp add: uniqueFallbackStreams_def)
  note in_unique = filter_singleton [OF one]
  have "last (filter (\<lambda>s. infoHash_s s = Some h) fs) \<in> set fs"
    using in_unique(1) sub by auto
  moreover have "infoHash_s (last (filter (\<lambda>s. infoHash_s s = Some h) fs)) = Some h"
    using in_unique(2) .
  ultimately have "validStream (last (filter (\<lambda>s. infoHash_s s = Some h) fs))"
    using fallbackStreamsOf_valid(2) unfolding fs_def by auto
  then have "filter (\<lambda>s. infoHash_s s = Some h) T =
               [last (filter (\<lambda>s. infoHash_s s = Some h) fs)]"
    unfolding T_def filter_commute [of _ validStream] one by simp
  then have a: "filter (\<lambda>s. infoHash_s s = Some h) out =
                  [last (filter (\<lambda>s. infoHash_s s = Some h) fs)]"
    by (simp add: out pm_h)
  have "filter (\<lambda>s. url s = None) (premiumizeStreams r) = []"
    using pm truthy_not_None by (fastforce simp add: filter_empty_conv)
  moreover have "filter (\<lambda>s. url s = None) T = T"
    using Tnone by (intro filter_True) auto
  ultimately have part: "filter (\<lambda>s. url s = None) out = T"
    by (simp add: out)
  have b: "map infoHash_s (filter (\<lambda>s. url s = None) out) =
             filter (\<lambda>k. k \<noteq> None) (new_Set (map infoHash_s fs))"
    unfolding part T_def using fs_def by (rule unique_torrent_part)
  have c: "distinct (map infoHash_s (filter (\<lambda>s. url s = None) out))"
    unfolding b by (simp add: new_Set_distinct)
  show ?thesis
    unfolding Let_def r_def [symmetric] fs_def [symmetric] out_def [symmetric]
    using a b c by simp
qed

theorem dedup_one_stream_per_infoHash_witness:
  "let ts = [\<lparr>title = ''First'',
              magnetUrl = Some ''magnet:?xt=urn:btih:aaaaaaaaaaaaaaaaaaaaaaaaaaaaaaaaaaaaaaaa'',
              size_t = None, resolution = ''1080p'', seeders = 20, peers = 5,
              videoCodec = None, videoSource = None, languages = [], files = None\<rparr>,
             \<lparr>title = ''Second'',
              magnetUrl = Some ''magnet:?xt=urn:btih:aaaaaaaaaaaaaaaaaaaaaaaaaaaaaaaaaaaaaaaa&tr=x'',
              size_t = None, resolution = ''1080p'', seeders = 7, peers = 5,
              videoCodec = None, videoSource = None, languages = [], files = None\<rparr>];
       parsedId = \<lparr>imdbId = ''tt0111161'', season = None, episode = None, searchType = Movie\<rparr>;
       config = \<lparr>bitmagnetUrl = ''http://bitmagnet'', tmdbApiKey = None,
                 premiumizeApiKey = None, bitmagnetTimeout = 30,
                 bitmagnetSortField = ''seeders'', bitmagnetSortDescending = True,
                 bitmagnetSearchLimit = 20\<rparr>;
       fs = fallbackStreamsOf exactLogIndex [] parsedId
              (fallbackTorrents (reconcile exactLogIndex ts parsedId None config NetworkError
                                   (\<lambda>k m q. None) (\<lambda>i. 0)));
       out = createStreamsFromTorrents exactLogIndex ts parsedId None config [] NetworkError
               (\<lambda>k m q. None) (\<lambda>i. 0)
   in hd fs \<in> set fs \<and>
      map infoHash_s fs = [Some ''aaaaaaaaaaaaaaaaaaaaaaaaaaaaaaaaaaaaaaaa'',
                          Some ''aaaaaaaaaaaaaaaaaaaaaaaaaaaaaaaaaaaaaaaa''] \<and>
      filter (\<lambda>s. infoHash_s s = Some ''aaaaaaaaaaaaaaaaaaaaaaaaaaaaaaaaaaaaaaaa'') out =
        [last (filter (\<lambda>s. infoHash_s s = Some ''aaaaaaaaaaaaaaaaaaaaaaaaaaaaaaaaaaaaaaaa'') fs)]"
proof -
  define ts where "ts = [\<lparr>title = ''First'',
              magnetUrl = Some ''magnet:?xt=urn:btih:aaaaaaaaaaaaaaaaaaaaaaaaaaaaaaaaaaaaaaaa'',
              size_t = None, resolution = ''1080p'', seeders = 20, peers = 5,
              videoCodec = None, videoSource = None, languages = [], files = None\<rparr>,
             \<lparr>title = ''Second'',
              magnetUrl = Some ''magnet:?xt=urn:btih:aaaaaaaaaaaaaaaaaaaaaaaaaaaaaaaaaaaaaaaa&tr=x'',
              size_t = None, resolution = ''1080p'', seeders = 7, peers = 5,
              videoCodec = None, videoSource = None, languages = [], files = None\<rparr>]"
  define parsedId where
    "parsedId = \<lparr>imdbId = ''tt0111161'', season = None, episode = None, searchType = Movie\<rparr>"
  define config where "config = \<lparr>bitmagnetUrl = ''http://bitmagnet'', tmdbApiKey = None,
                 premiumizeApiKey = None, bitmagnetTimeout = 30,
                 bitmagnetSortField = ''seeders'', bitmagnetSortDescending = True,
                 bitmagnetSearchLimit = 20\<rparr>"
  define fs where "fs = fallbackStreamsOf exactLogIndex [] parsedId
              (fallbackTorrents (reconcile exactLogIndex ts parsedId None config NetworkError
                                   (\<lambda>k m q. None) (\<lambda>i. 0)))"
  have hs: "map infoHash_s fs = [Some ''aaaaaaaaaaaaaaaaaaaaaaaaaaaaaaaaaaaaaaaa'',
                                Some ''aaaaaaaaaaaaaaaaaaaaaaaaaaaaaaaaaaaaaaaa'']"
    unfolding fs_def ts_def parsedId_def config_def by code_simp
  then have ne: "fs \<noteq> []" by auto
  then have m: "hd fs \<in> set fs" by simp
  have k: "infoHash_s (hd fs) = Some ''aaaaaaaaaaaaaaaaaaaaaaaaaaaaaaaaaaaaaaaa''"
    using hs ne by (cases fs) simp_all
  show ?thesis
    unfolding Let_def ts_def [symmetric] parsedId_def [symmetric] config_def [symmetric]
      fs_def [symmetric]
    using m hs dedup_one_stream_per_infoHash [OF m [unfolded fs_def] k [unfolded fs_def]]
    by (simp add: Let_def fs_def)
qed

text \<open>
  The claim as the specification words it fails: of two fallback candidates with one info
  hash the output keeps the content of the second, not of the first.
\<close>

theorem dedup_keeps_last_counterexample:
  "map titleLine
     (createStreamsFromTorrents exactLogIndex
        [\<lparr>title = ''First'',
          magnetUrl = Some ''magnet:?xt=urn:btih:aaaaaaaaaaaaaaaaaaaaaaaaaaaaaaaaaaaaaaaa'',
          size_t = None, resolution = ''1080p'', seeders = 20, peers = 5, videoCodec = None,
          videoSource = None, languages = [], files = None\<rparr>,
         \<lparr>title = ''Second'',
          magnetUrl = Some ''magnet:?xt=urn:btih:aaaaaaaaaaaaaaaaaaaaaaaaaaaaaaaaaaaaaaaa&tr=x'',
          size_t = None, resolution = ''1080p'', seeders = 7, peers = 5, videoCodec = None,
          videoSource = None, languages = [], files = None\<rparr>]
        \<lparr>imdbId = ''tt0111161'', season = None, episode = None, searchType = Movie\<rparr>
        None
        \<lparr>bitmagnetUrl = ''http://bitmagnet'', tmdbApiKey = None, premiumizeApiKey = None,
         bitmagnetTimeout = 30, bitmagnetSortField = ''seeders'',
         bitmagnetSortDescending = True, bitmagnetSearchLimit = 20\<rparr>
        [] NetworkError noDirectLink allAtOnce) = [''Second''] \<and>
   map sources_s
     (createStreamsFromTorrents exactLogIndex
        [\<lparr>title = ''First'',
          magnetUrl = Some ''magnet:?xt=urn:btih:aaaaaaaaaaaaaaaaaaaaaaaaaaaaaaaaaaaaaaaa'',
          size_t = None, resolution = ''1080p'', seeders = 20, peers = 5, videoCodec = None,
          videoSource = None, languages = [], files = None\<rparr>,
         \<lparr>title = ''Second'',
          magnetUrl = Some ''magnet:?xt=urn:btih:aaaaaaaaaaaaaaaaaaaaaaaaaaaaaaaaaaaaaaaa&tr=x'',
          size_t = None, resolution = ''1080p'', seeders = 7, peers = 5, videoCodec = None,
          videoSource = None, languages = [], files = None\<rparr>]
        \<lparr>imdbId = ''tt0111161'', season = None, episode = None, searchType = Movie\<rparr>
        None
        \<lparr>bitmagnetUrl = ''http://bitmagnet'', tmdbApiKey = None, premiumizeApiKey = None,
         bitmagnetTimeout = 30, bitmagnetSortField = ''seeders'',
         bitmagnetSortDescending = True, bitmagnetSearchLimit = 20\<rparr>
        [] NetworkError noDirectLink allAtOnce) = [Some [''tracker:x'']]"
  by code_simp

lemma filter_by_index:
  "map (\<lambda>i. g (xs ! i)) (filter (\<lambda>i. P (xs ! i)) [0..<length xs]) = map g (filter P xs)"
proof -
  have "filter P xs = filter P (map (nth xs) [0..<length xs])"
    by (simp add: map_nth)
  also have "\<dots> = map (nth xs) (filter (P \<circ> nth xs) [0..<length xs])"
    by (simp add: filter_map)
  finally show ?thesis by (simp add: comp_def)
qed

lemma pushed_by_completion:
  "filter (\<lambda>i. map f cands ! i = None) (sort_key finishTime [0..<length cands]) =
   filter (\<lambda>i. f (cands ! i) = None) (sort_key finishTime [0..<length cands])"
  by (intro filter_cong) simp_all

lemma pushed_mset:
  "mset (map (\<lambda>i. g (cands ! i))
           (filter (\<lambda>i. f (cands ! i) = None) (sort_key finishTime [0..<length cands]))) =
   mset (map g (filter (\<lambda>c. f c = None) cands))"
proof -
  have "mset (map (\<lambda>i. g (cands ! i))
           (filter (\<lambda>i. f (cands ! i) = None) (sort_key finishTime [0..<length cands]))) =
        mset (map (\<lambda>i. g (cands ! i)) (filter (\<lambda>i. f (cands ! i) = None) [0..<length cands]))"
    by (simp only: mset_map mset_filter mset_sort)
  then show ?thesis
    by (simp only: filter_by_index [of g cands "\<lambda>c. f c = None"])
qed

text \<open>
  C2, as the code has it. Every stream of the output has a non-empty \<open>url\<close>, or a
  non-empty info hash together with a title. The output is the direct streams followed
  by the deduplicated torrent streams. The direct streams stand in the order of their
  candidates among the search results, whatever the order in which the direct-link
  requests complete. The torrent streams are streams of the fallback streams \<open>fs\<close>, one
  for each info hash, the info hashes in the order of their first occurrence in \<open>fs\<close>.
  The fallback list from which \<open>fs\<close> is built holds first the search results that were
  no candidates, in their original order, and after them the candidates whose
  direct-link resolution failed, each once, in the order \<open>completion\<close> in which their
  requests completed: the candidate indices sorted by \<open>finishTime\<close>.
\<close>

theorem output_invariant_and_order:
  "let m = premiumizeResultsMap config searchResults fetched;
       resolve = (\<lambda>c. processPremiumizeCandidate logIndex getDirectLink config (fst c) (snd c)
                        parsedId tmdbTitle);
       r = reconcile logIndex searchResults parsedId tmdbTitle config fetched getDirectLink
             finishTime;
       cands = premiumizeCandidates r;
       completion = sort_key finishTime [0..<length cands];
       fs = fallbackStreamsOf logIndex additionalTrackers parsedId (fallbackTorrents r);
       torrentStreams = filter validStream (uniqueFallbackStreams fs);
       out = createStreamsFromTorrents logIndex searchResults parsedId tmdbTitle config
               additionalTrackers fetched getDirectLink finishTime
   in (\<forall>s \<in> set out. truthy (url s) \<or> (truthy (infoHash_s s) \<and> title_s s \<noteq> [])) \<and>
      out = premiumizeStreams r @ torrentStreams \<and>
      (\<forall>s \<in> set (premiumizeStreams r). truthy (url s)) \<and>
      (\<forall>s \<in> set torrentStreams. url s = None \<and> truthy (infoHash_s s) \<and> title_s s \<noteq> []) \<and>
      map fst cands = filter (isCandidate config m) searchResults \<and>
      premiumizeStreams r = map the (filter (\<lambda>s. s \<noteq> None) (map resolve cands)) \<and>
      map infoHash_s torrentStreams = filter (\<lambda>k. k \<noteq> None) (new_Set (map infoHash_s fs)) \<and>
      distinct (map infoHash_s torrentStreams) \<and>
      set torrentStreams \<subseteq> set fs \<and>
      mset completion = mset [0..<length cands] \<and>
      sorted (map finishTime completion) \<and>
      fallbackTorrents r =
        filter (\<lambda>t. \<not> isCandidate config m t) searchResults @
        map (\<lambda>i. fst (cands ! i)) (filter (\<lambda>i. resolve (cands ! i) = None) completion) \<and>
      mset (map (\<lambda>i. fst (cands ! i)) (filter (\<lambda>i. resolve (cands ! i) = None) completion)) =
        mset (map fst (filter (\<lambda>c. resolve c = None) cands))"
proof -
  define m where "m = premiumizeResultsMap config searchResults fetched"
  define resolve where
    "resolve = (\<lambda>c. processPremiumizeCandidate logIndex getDirectLink config (fst c) (snd c)
                      parsedId tmdbTitle)"
  define r where "r = reconcile logIndex searchResults parsedId tmdbTitle config fetched
                        getDirectLink finishTime"
  define fs where
    "fs = fallbackStreamsOf logIndex additionalTrackers parsedId (fallbackTorrents r)"
  define T where "T = filter validStream (uniqueFallbackStreams fs)"
  define out where "out = createStreamsFromTorrents logIndex searchResults parsedId tmdbTitle
                     config additionalTrackers fetched getDirectLink finishTime"
  define cands where "cands = map (\<lambda>t. (t, the (m (the (infoHashOf t)))))
                                (filter (isCandidate config m) searchResults)"
  define completion where "completion = sort_key finishTime [0..<length cands]"
  define pushed where
    "pushed = map (\<lambda>i. fst (cands ! i)) (filter (\<lambda>i. resolve (cands ! i) = None) completion)"
  define pushed0 where
    "pushed0 = map (\<lambda>i. fst (cands ! i))
                 (filter (\<lambda>i. map resolve cands ! i = None)
                    (sort_key finishTime [0..<length cands]))"
  have "pushed0 = pushed"
    unfolding pushed0_def pushed_def completion_def
    by (simp only: pushed_by_completion [of resolve cands finishTime])
  moreover have "r = \<lparr>premiumizeCandidates = cands,
               fallbackTorrents = filter (\<lambda>t. \<not> isCandidate config m t) searchResults @ pushed0,
               premiumizeStreams = map the (filter (\<lambda>s. s \<noteq> None) (map resolve cands))\<rparr>"
    unfolding r_def reconcile_def Let_def firstLoop_eq m_def [symmetric]
    by (simp add: cands_def pushed0_def resolve_def)
  ultimately have r: "r = \<lparr>premiumizeCandidates = cands,
               fallbackTorrents = filter (\<lambda>t. \<not> isCandidate config m t) searchResults @ pushed,
               premiumizeStreams = map the (filter (\<lambda>s. s \<noteq> None) (map resolve cands))\<rparr>"
    by (simp only:)
  have cs: "premiumizeCandidates r = cands"
    by (simp add: r)
  have out: "out = premiumizeStreams r @ T"
    unfolding out_def T_def fs_def r_def by (rule createStreams_split)
  have pm: "truthy (url s)" if "s \<in> set (premiumizeStreams r)" for s
    using that premiumizeStreams_member(1) unfolding r_def by blast
  have sub: "set (uniqueFallbackStreams fs) \<subseteq> set fs"
    unfolding uniqueFallbackStreams_def by (rule dedup_subset)
  have tv: "url s = None \<and> truthy (infoHash_s s) \<and> title_s s \<noteq> []" if "s \<in> set T" for s
  proof -
    from that have s: "s \<in> set fs" "validStream s" using sub unfolding T_def by auto
    note p = fallbackStreamsOf_valid [OF s(1) [unfolded fs_def]]
    from p(2) s(2) obtain h where h: "infoHash_s s = Some h" by auto
    then have "h \<noteq> []" by (rule p(5))
    then show ?thesis using p(1,4) h by (simp add: truthy_def)
  qed
  have inv: "truthy (url s) \<or> (truthy (infoHash_s s) \<and> title_s s \<noteq> [])" if "s \<in> set out" for s
    using that pm tv unfolding out by auto
  have c1: "map fst cands = filter (isCandidate config m) searchResults"
    by (simp add: cands_def comp_def)
  have c2: "premiumizeStreams r = map the (filter (\<lambda>s. s \<noteq> None) (map resolve cands))"
    by (simp add: r)
  have c3: "map infoHash_s T = filter (\<lambda>k. k \<noteq> None) (new_Set (map infoHash_s fs))"
    unfolding T_def using fs_def by (rule unique_torrent_part)
  have c3d: "distinct (map infoHash_s T)"
    unfolding c3 by (simp add: new_Set_distinct)
  have c4: "fallbackTorrents r =
              filter (\<lambda>t. \<not> isCandidate config m t) searchResults @ pushed"
    by (simp add: r)
  have c5: "mset pushed = mset (map fst (filter (\<lambda>c. resolve c = None) cands))"
    unfolding pushed_def completion_def by (rule pushed_mset)
  have c6: "set T \<subseteq> set fs"
    using sub unfolding T_def by auto
  have c7: "mset completion = mset [0..<length cands]"
    unfolding completion_def by (rule mset_sort)
  have c8: "sorted (map finishTime completion)"
    unfolding completion_def by (rule sorted_sort_key)
  show ?thesis
    unfolding Let_def m_def [symmetric] resolve_def [symmetric] r_def [symmetric] cs
      completion_def [symmetric] pushed_def [symmetric]
      fs_def [symmetric] T_def [symmetric] out_def [symmetric]
    using inv out pm tv c1 c2 c3 c3d c4 c5 c6 c7 c8 by blast
qed

theorem output_invariant_and_order_witness:
  "let ts = [\<lparr>title = ''A'',
              magnetUrl = Some ''magnet:?xt=urn:btih:aaaaaaaaaaaaaaaaaaaaaaaaaaaaaaaaaaaaaaaa'',
              size_t = None, resolution = ''1080p'', seeders = 20, peers = 5,
              videoCodec = None, videoSource = None, languages = [], files = None\<rparr>,
             \<lparr>title = ''B'',
              magnetUrl = Some ''magnet:?xt=urn:btih:bbbbbbbbbbbbbbbbbbbbbbbbbbbbbbbbbbbbbbbb'',
              size_t = None, resolution = ''1080p'', seeders = 7, peers = 5,
              videoCodec = None, videoSource = None, languages = [], files = None\<rparr>];
       parsedId = \<lparr>imdbId = ''tt0111161'', season = None, episode = None, searchType = Movie\<rparr>;
       config = \<lparr>bitmagnetUrl = ''http://bitmagnet'', tmdbApiKey = None,
                 premiumizeApiKey = Some ''key'', bitmagnetTimeout = 30,
                 bitmagnetSortField = ''seeders'', bitmagnetSortDescending = True,
                 bitmagnetSearchLimit = 20\<rparr>;
       fetched = JsonBody \<lparr>status = Some ''success'', response = Some [JBool True, JBool False],
                           filenames = Some [Some ''a.mkv'', None]\<rparr>;
       out = createStreamsFromTorrents exactLogIndex ts parsedId None config [] fetched
               (\<lambda>k m q. if m = ''magnet:?xt=urn:btih:aaaaaaaaaaaaaaaaaaaaaaaaaaaaaaaaaaaaaaaa''
                        then Some ''http://direct.link/a.mkv'' else None) (\<lambda>i. 0)
   in map (\<lambda>s. (url s, infoHash_s s)) out =
        [(Some ''http://direct.link/a.mkv'', None),
         (None, Some ''bbbbbbbbbbbbbbbbbbbbbbbbbbbbbbbbbbbbbbbb'')] \<and>
      (\<forall>s \<in> set out. truthy (url s) \<or> (truthy (infoHash_s s) \<and> title_s s \<noteq> []))"
proof -
  define ts where "ts = [\<lparr>title = ''A'',
              magnetUrl = Some ''magnet:?xt=urn:btih:aaaaaaaaaaaaaaaaaaaaaaaaaaaaaaaaaaaaaaaa'',
              size_t = None, resolution = ''1080p'', seeders = 20, peers = 5,
              videoCodec = None, videoSource = None, languages = [], files = None\<rparr>,
             \<lparr>title = ''B'',
              magnetUrl = Some ''magnet:?xt=urn:btih:bbbbbbbbbbbbbbbbbbbbbbbbbbbbbbbbbbbbbbbb'',
              size_t = None, resolution = ''1080p'', seeders = 7, peers = 5,
              videoCodec = None, videoSource = None, languages = [], files = None\<rparr>]"
  define parsedId where
    "parsedId = \<lparr>imdbId = ''tt0111161'', season = None, episode = None, searchType = Movie\<rparr>"
  define config where "config = \<lparr>bitmagnetUrl = ''http://bitmagnet'', tmdbApiKey = None,
                 premiumizeApiKey = Some ''key'', bitmagnetTimeout = 30,
                 bitmagnetSortField = ''seeders'', bitmagnetSortDescending = True,
                 bitmagnetSearchLimit = 20\<rparr>"
  define fetched where
    "fetched = JsonBody \<lparr>status = Some ''success'', response = Some [JBool True, JBool False],
                         filenames = Some [Some ''a.mkv'', None]\<rparr>"
  define link where
    "link = (\<lambda>(k::string) (m::string) (q::string).
               if m = ''magnet:?xt=urn:btih:aaaaaaaaaaaaaaaaaaaaaaaaaaaaaaaaaaaaaaaa''
               then Some ''http://direct.link/a.mkv'' else None)"
  define out where
    "out = createStreamsFromTorrents exactLogIndex ts parsedId None config [] fetched link (\<lambda>i. 0)"
  have a: "map (\<lambda>s. (url s, infoHash_s s)) out =
        [(Some ''http://direct.link/a.mkv'', None),
         (None, Some ''bbbbbbbbbbbbbbbbbbbbbbbbbbbbbbbbbbbbbbbb'')]"
    unfolding out_def ts_def parsedId_def config_def fetched_def link_def by code_simp
  have b: "\<forall>s \<in> set out. truthy (url s) \<or> (truthy (infoHash_s s) \<and> title_s s \<noteq> [])"
    using output_invariant_and_order
      [where logIndex = exactLogIndex and searchResults = ts and parsedId = parsedId
         and tmdbTitle = None
         and config = config and additionalTrackers = "[]" and fetched = fetched
         and getDirectLink = link and finishTime = "\<lambda>i. 0"]
    unfolding Let_def out_def by blast
  show ?thesis
    unfolding Let_def ts_def [symmetric] parsedId_def [symmetric] config_def [symmetric]
      fetched_def [symmetric] link_def [symmetric] out_def [symmetric]
    using a b by simp
qed

text \<open>
  The claim as the specification words it fails: for the search results C, X1, A, Y, B,
  X2, in this order, where C, A and B are cached, the direct-link resolution of C fails,
  the requests complete in the order B, A, C, and X1 and X2 have one info hash, the
  output holds the direct streams of A and B, in this order, and then the torrent streams
  of X2, Y and C, in this order. (The first line of the title of a direct stream is the
  file name of the cache status.)
\<close>

theorem fallback_order_counterexample:
  "map titleLine
     (createStreamsFromTorrents exactLogIndex
        [\<lparr>title = ''C'',
          magnetUrl = Some ''magnet:?xt=urn:btih:eeeeeeeeeeeeeeeeeeeeeeeeeeeeeeeeeeeeeeee'',
          size_t = None, resolution = ''1080p'', seeders = 20, peers = 5, videoCodec = None,
          videoSource = None, languages = [], files = None\<rparr>,
         \<lparr>title = ''X1'',
          magnetUrl = Some ''magnet:?xt=urn:btih:aaaaaaaaaaaaaaaaaaaaaaaaaaaaaaaaaaaaaaaa'',
          size_t = None, resolution = ''1080p'', seeders = 9, peers = 5, videoCodec = None,
          videoSource = None, languages = [], files = None\<rparr>,
         \<lparr>title = ''A'',
          magnetUrl = Some ''magnet:?xt=urn:btih:cccccccccccccccccccccccccccccccccccccccc'',
          size_t = None, resolution = ''1080p'', seeders = 8, peers = 5, videoCodec = None,
          videoSource = None, languages = [], files = None\<rparr>,
         \<lparr>title = ''Y'',
          magnetUrl = Some ''magnet:?xt=urn:btih:bbbbbbbbbbbbbbbbbbbbbbbbbbbbbbbbbbbbbbbb'',
          size_t = None, resolution = ''1080p'', seeders = 7, peers = 5, videoCodec = None,
          videoSource = None, languages = [], files = None\<rparr>,
         \<lparr>title = ''B'',
          magnetUrl = Some ''magnet:?xt=urn:btih:dddddddddddddddddddddddddddddddddddddddd'',
          size_t = None, resolution = ''1080p'', seeders = 6, peers = 5, videoCodec = None,
          videoSource = None, languages = [], files = None\<rparr>,
         \<lparr>title = ''X2'',
          magnetUrl = Some ''magnet:?xt=urn:btih:aaaaaaaaaaaaaaaaaaaaaaaaaaaaaaaaaaaaaaaa'',
          size_t = None, resolution = ''720p'', seeders = 5, peers = 5, videoCodec = None,
          videoSource = None, languages = [], files = None\<rparr>]
        \<lparr>imdbId = ''tt0111161'', season = None, episode = None, searchType = Movie\<rparr>
        None
        \<lparr>bitmagnetUrl = ''http://bitmagnet'', tmdbApiKey = None,
         premiumizeApiKey = Some ''key'', bitmagnetTimeout = 30,
         bitmagnetSortField = ''seeders'', bitmagnetSortDescending = True,
         bitmagnetSearchLimit = 20\<rparr>
        []
        (JsonBody \<lparr>status = Some ''success'',
                   response = Some [JBool True, JBool False, JBool True, JBool False,
                                    JBool True, JBool False],
                   filenames = Some [Some ''c.mkv'', None, Some ''a.mkv'', None,
                                     Some ''b.mkv'', None]\<rparr>)
        (directLinkUnless ''magnet:?xt=urn:btih:eeeeeeeeeeeeeeeeeeeeeeeeeeeeeeeeeeeeeeee'')
        laterFirst) =
   [''a.mkv'', ''b.mkv'', ''X2'', ''Y'', ''C'']"
  by code_simp

end
